theory Spec2Isabelle
  imports Main "HOL-Library.Sublist" "HOL-Library.Code_Target_Nat"
begin

section \<open>Strings\<close>

text \<open>
  A JavaScript string is a sequence of UTF-16 code units. The model covers the strings
  whose code units are all below 256 (ASCII and the Latin-1 supplement, which holds the
  Swedish letters): one \<open>char\<close> per code unit, \<open>of_char\<close> giving its value. On this
  range \<open>toLowerCase\<close> maps code unit to code unit and stays inside the range.
\<close>

abbreviation LF :: char where "LF \<equiv> CHR 0x0A"
abbreviation a_ring :: char where "a_ring \<equiv> CHR 0xE5"
abbreviation a_uml :: char where "a_uml \<equiv> CHR 0xE4"
abbreviation o_uml :: char where "o_uml \<equiv> CHR 0xF6"
abbreviation A_ring :: char where "A_ring \<equiv> CHR 0xC5"
abbreviation A_uml :: char where "A_uml \<equiv> CHR 0xC4"
abbreviation O_uml :: char where "O_uml \<equiv> CHR 0xD6"

definition cu :: "char \<Rightarrow> nat" where
  "cu c = of_char c"

text \<open>The class \<open>\s\<close>, which is also what \<open>trim\<close> removes: TAB, LF, VT, FF, CR, SP, NBSP.\<close>

definition isWhiteSpace :: "char \<Rightarrow> bool" where
  "isWhiteSpace c = ((9 \<le> cu c \<and> cu c \<le> 13) \<or> cu c = 32 \<or> cu c = 160)"

definition isDigit :: "char \<Rightarrow> bool" where
  "isDigit c = (48 \<le> cu c \<and> cu c \<le> 57)"

definition isLowerAZ :: "char \<Rightarrow> bool" where
  "isLowerAZ c = (97 \<le> cu c \<and> cu c \<le> 122)"

definition isUpperAZ :: "char \<Rightarrow> bool" where
  "isUpperAZ c = (65 \<le> cu c \<and> cu c \<le> 90)"

text \<open>The class \<open>\w\<close>: ASCII letters, digits and the underscore.\<close>

definition isWordChar :: "char \<Rightarrow> bool" where
  "isWordChar c = (isLowerAZ c \<or> isUpperAZ c \<or> isDigit c \<or> cu c = 95)"

text \<open>
  \<open>toLowerCase\<close> on one code unit: A-Z and the Latin-1 capitals 0xC0-0xDE (but not the
  multiplication sign 0xD7) move up by 32, everything else stays.
\<close>

definition char_toLowerCase :: "char \<Rightarrow> char" where
  "char_toLowerCase c =
     (if isUpperAZ c \<or> (192 \<le> cu c \<and> cu c \<le> 222 \<and> cu c \<noteq> 215)
      then char_of (cu c + 32) else c)"

definition toLowerCase :: "string \<Rightarrow> string" where
  "toLowerCase s = map char_toLowerCase s"

definition trim :: "string \<Rightarrow> string" where
  "trim s = rev (dropWhile isWhiteSpace (rev (dropWhile isWhiteSpace s)))"

fun startsWith :: "string \<Rightarrow> string \<Rightarrow> bool" where
  "startsWith s [] = True"
| "startsWith [] (p # ps) = False"
| "startsWith (c # cs) (p # ps) = (c = p \<and> startsWith cs ps)"

text \<open>\<open>s.includes(p)\<close>: \<open>p\<close> occurs in \<open>s\<close> as a contiguous substring.\<close>

fun str_includes :: "string \<Rightarrow> string \<Rightarrow> bool" where
  "str_includes [] p = (p = [])"
| "str_includes (c # cs) p = (startsWith (c # cs) p \<or> str_includes cs p)"

text \<open>\<open>s.split('\n')\<close>: the pieces between line feeds; never the empty list.\<close>

fun split_LF :: "string \<Rightarrow> string list" where
  "split_LF [] = [[]]"
| "split_LF (c # cs) =
     (if c = LF then [] # split_LF cs
      else (case split_LF cs of l # ls \<Rightarrow> (c # l) # ls | [] \<Rightarrow> [[c]]))"

text \<open>\<open>xs.join('\n')\<close>.\<close>

fun join_LF :: "string list \<Rightarrow> string" where
  "join_LF [] = []"
| "join_LF [x] = x"
| "join_LF (x # y # ys) = x @ LF # join_LF (y # ys)"

text \<open>\<open>s.replace(/\s+/g, ' ')\<close>: every maximal run of white space becomes one space.\<close>

function collapse_ws :: "string \<Rightarrow> string" where
  "collapse_ws [] = []"
| "collapse_ws (c # cs) =
     (if isWhiteSpace c then CHR '' '' # collapse_ws (dropWhile isWhiteSpace cs)
      else c # collapse_ws cs)"
  by pat_completeness auto
termination
  by (relation "measure length") (auto simp: le_imp_less_Suc [OF length_dropWhile_le])

section \<open>Listings\<close>

text \<open>
  The object pushed by \<open>findBusinessListings\<close>. \<open>website_source\<close> is read from a property
  of the site configuration that may be absent (\<open>undefined\<close> is \<open>None\<close>). The time stamp
  \<open>scraped_at\<close> is a clock reading and is left out.
\<close>

record listing =
  title :: string
  company :: string
  location :: string
  price :: string
  revenue :: string
  profit :: string
  industry :: string
  category :: string
  description :: string
  link :: string
  website_source :: "string option"
  currency :: string
  extraction_method :: string

section \<open>deduplicateBusinesses\<close>

text \<open>
  What \<open>replace(/[^a-z0-9...\s]/g, '')\<close> keeps, the dots standing for the three lower-case
  Swedish letters: the complement of the negated class.
\<close>

definition norm_keep :: "char \<Rightarrow> bool" where
  "norm_keep c = (isLowerAZ c \<or> isDigit c \<or> c = a_ring \<or> c = a_uml \<or> c = o_uml \<or> isWhiteSpace c)"

definition normalized :: "string \<Rightarrow> string" where
  "normalized s = trim (collapse_ws (filter norm_keep (toLowerCase s)))"

definition dedup_key :: "listing \<Rightarrow> string" where
  "dedup_key business = normalized (title business) @ ''_'' @ normalized (location business)"

text \<open>
  The loop of \<open>deduplicateBusinesses\<close>: \<open>seen\<close> is the Map from keys to listings,
  \<open>deduplicated\<close> the array that is pushed to.
\<close>

fun dedup_loop :: "(string \<rightharpoonup> listing) \<Rightarrow> listing list \<Rightarrow> listing list \<Rightarrow> listing list" where
  "dedup_loop seen deduplicated [] = deduplicated"
| "dedup_loop seen deduplicated (business # rest) =
     (let key = dedup_key business in
      if seen key = None
      then dedup_loop (seen(key \<mapsto> business)) (deduplicated @ [business]) rest
      else dedup_loop seen deduplicated rest)"

definition deduplicateBusinesses :: "listing list \<Rightarrow> listing list" where
  "deduplicateBusinesses businesses = dedup_loop Map.empty [] businesses"

section \<open>Regular expressions\<close>

text \<open>
  The patterns of the source, as terms, with the backtracking semantics of ECMAScript:
  \<open>rmatch r (s, cap)\<close> lists, in the order in which the engine tries them, the ways \<open>r\<close>
  can match a prefix of \<open>s\<close>; each is the rest of the input and the text of the capture
  group so far (no pattern of the source has more than one group). The first element is
  the match the engine reports. A starred pattern does not repeat an iteration that
  consumed nothing.
\<close>

datatype regex =
    Eps
  | Chars "char \<Rightarrow> bool"
  | Seq regex regex
  | Alt regex regex
  | Star regex
  | LazyStar regex
  | Group regex

function rmatch :: "regex \<Rightarrow> string \<times> string option \<Rightarrow> (string \<times> string option) list" where
  "rmatch Eps st = [st]"
| "rmatch (Chars P) (s, cap) = (case s of [] \<Rightarrow> [] | c # cs \<Rightarrow> if P c then [(cs, cap)] else [])"
| "rmatch (Seq a b) st = concat (map (rmatch b) (rmatch a st))"
| "rmatch (Alt a b) st = rmatch a st @ rmatch b st"
| "rmatch (Star a) (s, cap) =
     concat (map (rmatch (Star a)) (filter (\<lambda>st'. length (fst st') < length s) (rmatch a (s, cap))))
     @ [(s, cap)]"
| "rmatch (LazyStar a) (s, cap) =
     (s, cap) #
     concat (map (rmatch (LazyStar a)) (filter (\<lambda>st'. length (fst st') < length s) (rmatch a (s, cap))))"
| "rmatch (Group a) (s, cap) =
     map (\<lambda>st'. (fst st', Some (take (length s - length (fst st')) s))) (rmatch a (s, cap))"
  by pat_completeness auto
termination
  by (relation "inv_image (less_than <*lex*> less_than) (\<lambda>(r, s, cap). (size r, length s))") auto

declare rmatch.simps(5,6) [simp del]

text \<open>\<open>x+\<close> and \<open>x?\<close>.\<close>

definition Plus :: "regex \<Rightarrow> regex" where
  "Plus a = Seq a (Star a)"

definition Opt :: "regex \<Rightarrow> regex" where
  "Opt a = Alt a Eps"

text \<open>
  A literal, case-sensitive and under the flag \<open>i\<close>. On code units below 256 the
  canonicalisation of the flag identifies exactly the code units with the same lower case.
\<close>

fun lit :: "string \<Rightarrow> regex" where
  "lit [] = Eps"
| "lit (c # cs) = Seq (Chars (\<lambda>d. d = c)) (lit cs)"

fun lit_i :: "string \<Rightarrow> regex" where
  "lit_i [] = Eps"
| "lit_i (c # cs) = Seq (Chars (\<lambda>d. char_toLowerCase d = char_toLowerCase c)) (lit_i cs)"

text \<open>\<open>a|b|c\<close> over literals under the flag \<open>i\<close>, tried from left to right.\<close>

fun alts_i :: "string list \<Rightarrow> regex" where
  "alts_i [] = Chars (\<lambda>d. False)"
| "alts_i [x] = lit_i x"
| "alts_i (x # y # ys) = Alt (lit_i x) (alts_i (y # ys))"

text \<open>
  \<open>s.match(r)\<close> for a pattern without the flag \<open>g\<close>: the leftmost start with a match, and
  there the first match; the result is the capture group (\<open>None\<close> outside: no match).
\<close>

fun regex_match :: "regex \<Rightarrow> string \<Rightarrow> string option option" where
  "regex_match r [] = (case rmatch r ([], None) of [] \<Rightarrow> None | st # _ \<Rightarrow> Some (snd st))"
| "regex_match r (c # cs) =
     (case rmatch r (c # cs, None) of [] \<Rightarrow> regex_match r cs | st # _ \<Rightarrow> Some (snd st))"

text \<open>Whether \<open>s.match(r)\<close> is truthy: an array of matches (with or without \<open>g\<close>), not null.\<close>

definition regex_found :: "regex \<Rightarrow> string \<Rightarrow> bool" where
  "regex_found r s = (regex_match r s \<noteq> None)"

text \<open>
  \<open>s.split(/(?=r)/)\<close>: the separator is the empty match at a position where \<open>r\<close> matches
  ahead. The split loop of ECMAScript never tries the end of the string, and skips a
  match at the start of the current piece; \<open>piece\<close> is the text since the last cut.
\<close>

definition ahead :: "regex \<Rightarrow> string \<Rightarrow> bool" where
  "ahead r s = (rmatch r (s, None) \<noteq> [])"

fun split_loop :: "regex \<Rightarrow> string \<Rightarrow> string \<Rightarrow> string list" where
  "split_loop r piece [] = [piece]"
| "split_loop r piece (c # cs) =
     (if piece \<noteq> [] \<and> ahead r (c # cs) then piece # split_loop r [c] cs
      else split_loop r (piece @ [c]) cs)"

definition split_ahead :: "regex \<Rightarrow> string \<Rightarrow> string list" where
  "split_ahead r s = (if s = [] then (if ahead r [] then [] else [[]]) else split_loop r [] s)"

section \<open>scrapePage\<close>

text \<open>
  What one request can bring back: the error that \<open>axios.get\<close> (or the parser) raises, as
  its message, or the parsed document. Of the document the function reads the anchors
  (their text and their \<open>href\<close> attribute, which may be missing), the text of the elements
  selected by \<open>h1, h2, h3, h4, p, span, li, a\<close> in document order, and the length of the
  data. In a real document the anchors are among the selected elements; the two lists are
  kept apart here, which only adds documents.
\<close>

record document =
  anchors :: "(string \<times> string option) list"
  elements :: "string list"
  data_length :: nat

text \<open>
  The network is an oracle: the outcome of the \<open>n\<close>-th request of the run (counted from 0)
  when it asks for \<open>url\<close>. The random choice of the user agent is part of what the oracle
  stands for.
\<close>

type_synonym network = "nat \<Rightarrow> string \<Rightarrow> string + document"

text \<open>
  The effects of a run that the properties speak about: the URLs requested, in order, and
  the delays passed to \<open>setTimeout\<close>, in order, in milliseconds.
\<close>

record world =
  requests :: "string list"
  waits :: "nat list"

text \<open>The object returned by \<open>scrapePage\<close>; a field absent from the object is \<open>None\<close>.\<close>

record pageResult =
  page_success :: bool
  page_website :: string
  page_url :: string
  page_error :: "string option"
  page_links :: "(string \<times> string) list"
  page_text :: "string list"
  html_length :: "nat option"

definition scrapedLinks :: "document \<Rightarrow> (string \<times> string) list" where
  "scrapedLinks doc =
     concat (map (\<lambda>el. case snd el of
                           None \<Rightarrow> []
                         | Some href \<Rightarrow> if href \<noteq> [] \<and> trim (fst el) \<noteq> [] then [(trim (fst el), href)] else [])
                 (anchors doc))"

definition scrapedText :: "document \<Rightarrow> string list" where
  "scrapedText doc = map trim (elements doc)"

function scrapePage :: "network \<Rightarrow> string \<Rightarrow> string \<Rightarrow> nat \<Rightarrow> world \<Rightarrow> pageResult \<times> world" where
  "scrapePage net url website retryCount w =
     (let w1 = w\<lparr>requests := requests w @ [url]\<rparr> in
      case net (length (requests w)) url of
        Inr doc \<Rightarrow>
          (\<lparr>page_success = True, page_website = website, page_url = url, page_error = None,
            page_links = scrapedLinks doc, page_text = scrapedText doc,
            html_length = Some (data_length doc)\<rparr>, w1)
      | Inl message \<Rightarrow>
          if retryCount < 2
          then (let waitTime = 2000 * (retryCount + 1) in
                scrapePage net url website (retryCount + 1) (w1\<lparr>waits := waits w1 @ [waitTime]\<rparr>))
          else (\<lparr>page_success = False, page_website = website, page_url = url,
                 page_error = Some message, page_links = [], page_text = [],
                 html_length = None\<rparr>, w1))"
  by pat_completeness auto
termination
  by (relation "measure (\<lambda>(net, url, website, retryCount, w). 2 - retryCount)") auto

declare scrapePage.simps [simp del]

section \<open>findBusinessListings\<close>

text \<open>
  A value of \<open>WEBSITES\<close>. \<open>findBusinessListings\<close> reads the property \<open>name\<close> of the
  configuration it is given; an object without that property yields \<open>undefined\<close>, which is
  \<open>None\<close> here.
\<close>

record websiteConfig =
  name :: "string option"
  baseUrl :: string
  listingUrl :: string
  pagination :: string
  priority :: int
  maxPages :: nat

definition listingPattern :: regex where
  "listingPattern = alts_i [''Oms'' @ [a_uml] @ ''ttning'', ''oms'' @ [a_uml] @ ''tter'', ''Oms.'']"

definition listingBlocks :: "string \<Rightarrow> string list" where
  "listingBlocks allText = split_ahead listingPattern allText"

definition businessKeywords :: "string list" where
  "businessKeywords = [''f'' @ [o_uml] @ ''retag'', ''verksamhet'', ''bolag'', ''business'', ''till salu'']"

definition isBusiness :: "string \<Rightarrow> bool" where
  "isBusiness block =
     (let lowerBlock = toLowerCase block in list_ex (\<lambda>keyword. str_includes lowerBlock keyword) businessKeywords)"

definition isTitleCandidate :: "string \<Rightarrow> bool" where
  "isTitleCandidate line =
     (length (trim line) > 10 \<and> \<not> str_includes line ''http''
      \<and> \<not> str_includes line (''Oms'' @ [a_uml] @ ''ttning''))"

definition titleCandidates :: "string \<Rightarrow> string list" where
  "titleCandidates block = filter isTitleCandidate (split_LF block)"

text \<open>
  What the replacement in the title keeps: the complement of the negated class, which has
  \<open>\w\<close>, \<open>\s\<close>, the three capital Swedish letters and the hyphen; the pattern has the flag
  \<open>g\<close> only.
\<close>

definition title_keep :: "char \<Rightarrow> bool" where
  "title_keep c =
     (isWordChar c \<or> isWhiteSpace c \<or> c = A_ring \<or> c = A_uml \<or> c = O_uml \<or> c = CHR ''-'')"

definition extractTitle :: "string \<Rightarrow> string" where
  "extractTitle block =
     (case titleCandidates block of [] \<Rightarrow> [] | line # _ \<Rightarrow> filter title_keep (trim line))"

definition revenuePattern :: regex where
  "revenuePattern =
     Seq (alts_i [''oms'' @ [a_uml] @ ''ttning'', ''oms'', ''revenue''])
       (Seq (Star (Chars (\<lambda>c. \<not> isDigit c)))
         (Group (Seq (Plus (Chars (\<lambda>c. isDigit c \<or> c = CHR '','' \<or> c = CHR ''.'' \<or> isWhiteSpace c)))
                  (alts_i [''miljoner'', ''mkr'', ''msek'', ''kr'']))))"

definition profitPattern :: regex where
  "profitPattern =
     Seq (alts_i [''resultat'', ''vinst'', ''profit'', ''ebitda''])
       (Seq (Star (Chars (\<lambda>c. \<not> isDigit c)))
         (Group (Seq (Plus (Chars (\<lambda>c. isDigit c \<or> c = CHR '','' \<or> c = CHR ''.'' \<or> isWhiteSpace c)))
                  (alts_i [''%'', ''miljoner'', ''mkr'', ''msek'']))))"

definition locationPattern :: regex where
  "locationPattern =
     Group (alts_i [''Stockholm'', ''G'' @ [o_uml] @ ''teborg'', ''Malm'' @ [o_uml], ''Uppsala'',
                    ''Link'' @ [o_uml] @ ''ping'', [O_uml] @ ''rebro'',
                    ''V'' @ [a_uml] @ ''ster'' @ [a_ring] @ ''s'', ''Norrk'' @ [o_uml] @ ''ping'',
                    ''Helsingborg'', ''J'' @ [o_uml] @ ''nk'' @ [o_uml] @ ''ping'', ''Ume'' @ [a_ring],
                    ''Sundsvall''])"

definition linkPattern :: regex where
  "linkPattern =
     Group (Seq (lit ''http'') (Seq (Opt (lit ''s'')) (Seq (lit ''://'')
       (Plus (Chars (\<lambda>c. \<not> isWhiteSpace c \<and> c \<noteq> CHR '')''))))))"

text \<open>
  \<open>m = block.match(r); if (m && m[1]) x = m[1].trim()\<close> over the default \<open>x\<close>: the empty
  string is falsy.
\<close>

definition captured :: "regex \<Rightarrow> string \<Rightarrow> string \<Rightarrow> string" where
  "captured r block dflt =
     (case regex_match r block of
        Some (Some g) \<Rightarrow> if g \<noteq> [] then trim g else dflt
      | _ \<Rightarrow> dflt)"

definition makeListing :: "pageResult \<Rightarrow> websiteConfig \<Rightarrow> string \<Rightarrow> string \<Rightarrow> listing" where
  "makeListing rawScrapedData websiteConfig block ttl =
     \<lparr>title = ttl,
      company = ttl,
      location = captured locationPattern block ''Sweden'',
      price = ''Price on request'',
      revenue = captured revenuePattern block ''Not disclosed'',
      profit = captured profitPattern block ''Not disclosed'',
      industry = ''Various'',
      category = ''Business for Sale'',
      description = take 300 block @ ''...'',
      link = captured linkPattern block (page_url rawScrapedData),
      website_source = name websiteConfig,
      currency = ''SEK'',
      extraction_method = ''text_pattern_match_refined''\<rparr>"

text \<open>
  The \<open>forEach\<close> over the blocks: \<open>processedText\<close> is the Set of the titles taken so far,
  \<open>businesses\<close> the array that is pushed to.
\<close>

fun block_loop ::
  "pageResult \<Rightarrow> websiteConfig \<Rightarrow> string set \<Rightarrow> listing list \<Rightarrow> string list \<Rightarrow> listing list" where
  "block_loop rawScrapedData websiteConfig processedText businesses [] = businesses"
| "block_loop rawScrapedData websiteConfig processedText businesses (block # blocks) =
     (if isBusiness block
      then (let ttl = extractTitle block in
            if ttl = [] \<or> ttl \<in> processedText
            then block_loop rawScrapedData websiteConfig processedText businesses blocks
            else block_loop rawScrapedData websiteConfig (insert ttl processedText)
                   (businesses @ [makeListing rawScrapedData websiteConfig block ttl]) blocks)
      else block_loop rawScrapedData websiteConfig processedText businesses blocks)"

definition findBusinessListings :: "pageResult \<Rightarrow> websiteConfig \<Rightarrow> listing list" where
  "findBusinessListings rawScrapedData websiteConfig =
     (let allText = join_LF (page_text rawScrapedData) in
      block_loop rawScrapedData websiteConfig {} [] (listingBlocks allText))"

section \<open>filterByProfitRange\<close>

definition inRange :: "char \<Rightarrow> char \<Rightarrow> char \<Rightarrow> bool" where
  "inRange lo hi c = (cu lo \<le> cu c \<and> cu c \<le> cu hi)"

text \<open>The three indicator patterns, in the order of the array.\<close>

definition millionsPattern :: regex where
  "millionsPattern =
     Seq (Group (LazyStar (Chars (\<lambda>c. isDigit c \<or> c = CHR '','' \<or> c = CHR ''.''))))
       (Seq (Star (Chars isWhiteSpace))
         (Alt (Seq (lit_i ''miljone'') (Opt (lit_i ''r''))) (Alt (lit_i ''mkr'') (lit_i ''msek''))))"

definition employeesPattern :: regex where
  "employeesPattern =
     Seq (Group (Alt (Seq (Chars (inRange (CHR ''2'') (CHR ''9''))) (Chars isDigit))
                     (Seq (Chars (inRange (CHR ''1'') (CHR ''9'')))
                        (Seq (Chars isDigit) (Plus (Chars isDigit))))))
       (Seq (Star (Chars isWhiteSpace))
         (alts_i [''anst'' @ [a_uml] @ ''llda'', ''employees'', ''personal'']))"

definition profitablePattern :: regex where
  "profitablePattern =
     Group (alts_i [''l'' @ [o_uml] @ ''nsam'', ''vinst'', ''ebitda'', ''profitable''])"

definition indicators :: "regex list" where
  "indicators = [millionsPattern, employeesPattern, profitablePattern]"

text \<open>
  \<open>parseFloat\<close> on a string of digits and dots (what the replacement leaves of the
  revenue, so that no sign, exponent or white space arises): the longest prefix that is a
  decimal literal. \<open>Dec n k\<close> stands for the double nearest to \<open>n / 10^k\<close>.
\<close>

datatype number = NaN | Dec nat nat

definition digits_value :: "string \<Rightarrow> nat" where
  "digits_value ds = foldl (\<lambda>n c. 10 * n + (cu c - 48)) 0 ds"

definition parseFloat :: "string \<Rightarrow> number" where
  "parseFloat s =
     (let ip = takeWhile isDigit s; r = dropWhile isDigit s in
      case r of
        [] \<Rightarrow> if ip = [] then NaN else Dec (digits_value ip) 0
      | c # r' \<Rightarrow>
          if c = CHR ''.''
          then (let fp = takeWhile isDigit r' in
                if ip = [] \<and> fp = [] then NaN else Dec (digits_value (ip @ fp)) (length fp))
          else if ip = [] then NaN else Dec (digits_value ip) 0)"

text \<open>
  \<open>x >= 15\<close> and \<open>x < 100\<close> on such a number. Both bounds are doubles and rounding to the
  nearest double is monotone, so the double nearest to \<open>v\<close> is at least 15 exactly when
  \<open>v\<close> is at least the midpoint \<open>15 - 2^-50\<close> between 15 and the double before it, and
  below 100 exactly when \<open>v\<close> is below the midpoint \<open>100 - 2^-47\<close> (both ties go to the
  bound, whose significand is even). Comparisons with \<open>NaN\<close> are false.
\<close>

fun ge_15 :: "number \<Rightarrow> bool" where
  "ge_15 NaN = False"
| "ge_15 (Dec n k) = ((15 * 2 ^ 50 - 1) * 10 ^ k \<le> n * 2 ^ 50)"

fun lt_100 :: "number \<Rightarrow> bool" where
  "lt_100 NaN = False"
| "lt_100 (Dec n k) = (n * 2 ^ 47 < (100 * 2 ^ 47 - 1) * 10 ^ k)"

text \<open>The callback of the filter.\<close>

definition searchText :: "listing \<Rightarrow> string" where
  "searchText business =
     toLowerCase (revenue business @ '' '' @ profit business @ '' '' @ description business
                  @ '' '' @ title business)"

definition inTargetRange :: "listing \<Rightarrow> bool" where
  "inTargetRange business =
     (let hasIndicator = list_ex (\<lambda>pattern. regex_found pattern (searchText business)) indicators
      in if \<not> hasIndicator \<and> revenue business \<noteq> ''Not disclosed''
         then (let revenueNumber =
                     parseFloat (filter (\<lambda>c. isDigit c \<or> c = CHR ''.'') (revenue business))
               in if ge_15 revenueNumber \<and> lt_100 revenueNumber then True else hasIndicator)
         else hasIndicator)"

definition filterByProfitRange :: "listing list \<Rightarrow> listing list" where
  "filterByProfitRange businesses = filter inTargetRange businesses"

section \<open>scrapeAllWebsites\<close>

text \<open>\<open>WEBSITES\<close>, in the order of its keys; no entry has a property \<open>name\<close>.\<close>

definition WEBSITES :: "(string \<times> websiteConfig) list" where
  "WEBSITES =
     [(''exitpartner'',
       \<lparr>name = None, baseUrl = ''https://www.exitpartner.se'',
        listingUrl = ''https://www.exitpartner.se/foretag-till-salu/'',
        pagination = ''?page='', priority = 1, maxPages = 8\<rparr>),
      (''bolagsplatsen'',
       \<lparr>name = None, baseUrl = ''https://www.bolagsplatsen.se'',
        listingUrl = ''https://www.bolagsplatsen.se/foretag-till-salu/alla/alla'',
        pagination = ''?page='', priority = 2, maxPages = 5\<rparr>),
      (''objektvision'',
       \<lparr>name = None, baseUrl = ''https://objektvision.se'',
        listingUrl = ''https://objektvision.se/f'' @ [o_uml] @ ''retag_till_salu'',
        pagination = ''?page='', priority = 3, maxPages = 3\<rparr>),
      (''smergers'',
       \<lparr>name = None, baseUrl = ''https://www.smergers.com'',
        listingUrl = ''https://www.smergers.com/businesses-for-sale-in-sweden/c415t2b/'',
        pagination = ''?page='', priority = 4, maxPages = 3\<rparr>)]"

text \<open>The decimal digits of a page number, as the template literal writes it.\<close>

fun string_of_nat :: "nat \<Rightarrow> string" where
  "string_of_nat n =
     (if n < 10 then [char_of (48 + n)] else string_of_nat (n div 10) @ [char_of (48 + n mod 10)])"

declare string_of_nat.simps [simp del]

definition pageUrl :: "websiteConfig \<Rightarrow> nat \<Rightarrow> string" where
  "pageUrl config page =
     (if page = 1 then listingUrl config
      else listingUrl config @ pagination config @ string_of_nat page)"

text \<open>
  The loop over the pages of one site, from \<open>page\<close> on; \<open>allBusinesses\<close> is what the pages
  before have given.
\<close>

function page_loop ::
  "network \<Rightarrow> string \<Rightarrow> websiteConfig \<Rightarrow> nat \<Rightarrow> listing list \<Rightarrow> world \<Rightarrow> listing list \<times> world" where
  "page_loop net websiteName config page allBusinesses w =
     (if page \<le> maxPages config
      then (let url = pageUrl config page;
                fetched = scrapePage net url websiteName 0 w;
                pageResult = fst fetched;
                w1 = snd fetched
            in if page_success pageResult
                  \<and> (length (page_links pageResult) > 0 \<or> length (page_text pageResult) > 0)
               then (let businessesFromPage = findBusinessListings pageResult config in
                     page_loop net websiteName config (page + 1) (allBusinesses @ businessesFromPage)
                       (w1\<lparr>waits := waits w1 @ [3000]\<rparr>))
               else (allBusinesses, w1))
      else (allBusinesses, w))"
  by pat_completeness auto
termination
  by (relation "measure (\<lambda>(net, websiteName, config, page, allBusinesses, w). maxPages config + 1 - page)")
     auto

declare page_loop.simps [simp del]

text \<open>
  The body of the \<open>try\<close> block up to the record of the site: \<open>Inr\<close> the listings when it
  runs to its end, \<open>Inl\<close> the message of an error raised in it. \<open>scrapePage\<close> catches what
  a request raises and nothing else in the body raises here, so the crawl of the source
  always ends in \<open>Inr\<close>.
\<close>

definition crawlSite :: "network \<Rightarrow> string \<Rightarrow> websiteConfig \<Rightarrow> world \<Rightarrow> (string + listing list) \<times> world" where
  "crawlSite net websiteName config w =
     (let crawled = page_loop net websiteName config 1 [] w in (Inr (fst crawled), snd crawled))"

record siteResult =
  site_success :: bool
  site_url :: string
  count :: nat
  businesses :: "listing list"
  site_error :: "string option"
  pages_scraped :: "nat option"

record summary =
  total_businesses :: nat
  successful_sites :: nat
  failed_sites :: nat

record results =
  success :: bool
  websites :: "string \<rightharpoonup> siteResult"
  summary :: summary

text \<open>\<open>Math.ceil(n / (k || 1))\<close> when there are listings, else 0.\<close>

definition pagesScraped :: "websiteConfig \<Rightarrow> listing list \<Rightarrow> nat" where
  "pagesScraped config allBusinesses =
     (if length allBusinesses > 0
      then (let k = length (filter (\<lambda>b. link b = listingUrl config) allBusinesses);
                d = (if k = 0 then 1 else k)
            in (length allBusinesses + d - 1) div d)
      else 0)"

text \<open>
  The loop over the sites, with its \<open>try\<close> and \<open>catch\<close>; \<open>crawl\<close> is the body of the
  \<open>try\<close> block.
\<close>

fun site_loop ::
  "(string \<Rightarrow> websiteConfig \<Rightarrow> world \<Rightarrow> (string + listing list) \<times> world)
   \<Rightarrow> (string \<times> websiteConfig) list \<Rightarrow> results \<Rightarrow> world \<Rightarrow> results \<times> world" where
  "site_loop crawl [] res w = (res, w)"
| "site_loop crawl ((websiteName, config) # rest) res w =
     (let crawled = crawl websiteName config w;
          w1 = snd crawled;
          res1 =
            (case fst crawled of
               Inr allBusinesses \<Rightarrow>
                 res\<lparr>websites := (websites res)(websiteName \<mapsto>
                         \<lparr>site_success = True, site_url = listingUrl config,
                          count = length allBusinesses, businesses = allBusinesses,
                          site_error = None,
                          pages_scraped = Some (pagesScraped config allBusinesses)\<rparr>),
                     summary := (summary res)
                         \<lparr>successful_sites := successful_sites (summary res) + 1,
                          total_businesses := total_businesses (summary res) + length allBusinesses\<rparr>\<rparr>
             | Inl message \<Rightarrow>
                 res\<lparr>websites := (websites res)(websiteName \<mapsto>
                         \<lparr>site_success = False, site_url = listingUrl config,
                          count = 0, businesses = [], site_error = Some message,
                          pages_scraped = None\<rparr>),
                     summary := (summary res)
                         \<lparr>failed_sites := failed_sites (summary res) + 1\<rparr>\<rparr>)
      in site_loop crawl rest res1 (w1\<lparr>waits := waits w1 @ [2000]\<rparr>))"

definition initial_results :: results where
  "initial_results =
     \<lparr>success = True, websites = Map.empty,
      summary = \<lparr>total_businesses = 0, successful_sites = 0, failed_sites = 0\<rparr>\<rparr>"

definition initial_world :: world where
  "initial_world = \<lparr>requests = [], waits = []\<rparr>"

text \<open>
  \<open>scrapeAllWebsites\<close> over a table of sites: the entries sorted by priority (the sort is
  stable), then the loop. The source runs it on \<open>WEBSITES\<close>.
\<close>

definition scrapeSites :: "(string \<times> websiteConfig) list \<Rightarrow> network \<Rightarrow> results \<times> world" where
  "scrapeSites sites net =
     (let websiteEntries = sort_key (\<lambda>entry. priority (snd entry)) sites in
      site_loop (crawlSite net) websiteEntries initial_results initial_world)"

definition scrapeAllWebsites :: "network \<Rightarrow> results \<times> world" where
  "scrapeAllWebsites net = scrapeSites WEBSITES net"

section \<open>Notions of the specification\<close>

text \<open>The key of the specification: the normalised title and the normalised location.\<close>

definition normalized_pair :: "listing \<Rightarrow> string \<times> string" where
  "normalized_pair b = (normalized (title b), normalized (location b))"

text \<open>
  The listings that are the first of their key in a sequence, in the order of the
  sequence: position \<open>i\<close> stays when no earlier position has the same key.
\<close>

definition first_per_key :: "listing list \<Rightarrow> listing list" where
  "first_per_key bs =
     map (\<lambda>i. bs ! i)
       (filter (\<lambda>i. normalized_pair (bs ! i) \<notin> normalized_pair ` set (take i bs)) [0..<length bs])"

text \<open>The same by recursion over the keys of the code, \<open>S\<close> being the keys already met.\<close>

fun firsts :: "string set \<Rightarrow> listing list \<Rightarrow> listing list" where
  "firsts S [] = []"
| "firsts S (b # bs) = (if dedup_key b \<in> S then firsts S bs else b # firsts (insert (dedup_key b) S) bs)"

text \<open>
  Punctuation: the ASCII punctuation marks and symbols, the Latin-1 block 0xA1-0xBF, and
  the multiplication and division signs.
\<close>

definition isPunctuation :: "char \<Rightarrow> bool" where
  "isPunctuation c =
     ((33 \<le> cu c \<and> cu c \<le> 47) \<or> (58 \<le> cu c \<and> cu c \<le> 64) \<or> (91 \<le> cu c \<and> cu c \<le> 96) \<or>
      (123 \<le> cu c \<and> cu c \<le> 126) \<or> (161 \<le> cu c \<and> cu c \<le> 191) \<or> cu c = 215 \<or> cu c = 247)"

text \<open>
  Two strings that differ only by case, punctuation or runs of white space: the
  equivalence generated by changing the case of a character, dropping a punctuation
  character, lengthening a run of white space or changing one of its characters, and
  dropping white space at either end.
\<close>

inductive differ_only :: "string \<Rightarrow> string \<Rightarrow> bool" where
  same: "differ_only s s"
| letter_case: "char_toLowerCase c = char_toLowerCase d \<Longrightarrow> differ_only (u @ c # v) (u @ d # v)"
| punctuation: "isPunctuation c \<Longrightarrow> differ_only (u @ c # v) (u @ v)"
| run_length: "isWhiteSpace c \<Longrightarrow> isWhiteSpace d \<Longrightarrow> differ_only (u @ c # v) (u @ c # d # v)"
| run_kind: "isWhiteSpace c \<Longrightarrow> isWhiteSpace d \<Longrightarrow> differ_only (u @ c # v) (u @ d # v)"
| leading: "isWhiteSpace c \<Longrightarrow> differ_only (c # v) v"
| trailing: "isWhiteSpace c \<Longrightarrow> differ_only (u @ [c]) u"
| sym: "differ_only s t \<Longrightarrow> differ_only t s"
| trans: "differ_only s t \<Longrightarrow> differ_only t r \<Longrightarrow> differ_only s r"

text \<open>A listing for the examples, with the fixed fields as the extractor sets them.\<close>

definition sampleListing :: "string \<Rightarrow> string \<Rightarrow> string \<Rightarrow> listing" where
  "sampleListing ttl loc rvn =
     \<lparr>title = ttl, company = ttl, location = loc, price = ''Price on request'', revenue = rvn,
      profit = ''Not disclosed'', industry = ''Various'', category = ''Business for Sale'',
      description = ttl @ ''...'', link = ''https://example.se/'', website_source = None,
      currency = ''SEK'', extraction_method = ''text_pattern_match_refined''\<rparr>"

text \<open>The failure variant of the result of \<open>scrapePage\<close>.\<close>

definition failure :: "string \<Rightarrow> string \<Rightarrow> string \<Rightarrow> pageResult" where
  "failure website url message =
     \<lparr>page_success = False, page_website = website, page_url = url, page_error = Some message,
      page_links = [], page_text = [], html_length = None\<rparr>"

text \<open>The sum of the counts of the sites recorded with \<open>success = true\<close>.\<close>

definition successful_total :: "(string \<rightharpoonup> siteResult) \<Rightarrow> nat" where
  "successful_total ws = (\<Sum>n \<in> {n \<in> dom ws. site_success (the (ws n))}. count (the (ws n)))"

text \<open>
  The sites, the document and the network of the examples: a site whose only page holds
  three blocks that qualify as listings, the third with the title of the first, and a
  site whose requests all fail with \<open>message\<close>; the text of the segmentation example; a
  page of one listing; a document without anchors and elements, and one with an element.
\<close>

definition mockSites :: "(string \<times> websiteConfig) list" where
  "mockSites =
     [(''alpha'',
       \<lparr>name = None, baseUrl = ''https://alpha.example'', listingUrl = ''https://alpha.example/list'',
        pagination = ''?page='', priority = 1, maxPages = 1\<rparr>),
      (''beta'',
       \<lparr>name = None, baseUrl = ''https://beta.example'', listingUrl = ''https://beta.example/list'',
        pagination = ''?page='', priority = 2, maxPages = 3\<rparr>)]"

definition mockDocument :: document where
  "mockDocument =
     \<lparr>anchors = [],
      elements = [''Oms. 5 mkr'', ''Bageri till salu i Uppsala'',
                  ''Oms. 7 mkr'', ''Verkstad bolag i Uppsala'',
                  ''Oms. 9 mkr'', ''Bageri till salu i Uppsala''],
      data_length = 2048\<rparr>"

definition mockNetwork :: "string \<Rightarrow> network" where
  "mockNetwork message n url =
     (if url = ''https://alpha.example/list'' then Inr mockDocument else Inl message)"

definition segmentationText :: string where
  "segmentationText =
     ''Foo bar'' @ [LF] @ ''Oms'' @ [a_uml] @ ''ttning 20 mkr f'' @ [o_uml] @ ''retag till salu'' @ [LF]
     @ ''Bar baz'' @ [LF] @ ''oms 5 mkr bolag''"

definition samplePage :: pageResult where
  "samplePage =
     \<lparr>page_success = True, page_website = ''exitpartner'',
      page_url = ''https://www.exitpartner.se/foretag-till-salu/'', page_error = None,
      page_links = [], page_text = [''Bageri till salu i Uppsala''], html_length = Some 512\<rparr>"

definition emptyDocument :: document where
  "emptyDocument = \<lparr>anchors = [], elements = [], data_length = 0\<rparr>"

definition sampleDocument :: document where
  "sampleDocument =
     \<lparr>anchors = [], elements = [''Restaurang till salu i Uppsala''], data_length = 64\<rparr>"

text \<open>
  The characters that the specification says the cleaning of a title keeps: word
  characters, white space, and the three Swedish letters in either case.
\<close>

definition claimedKept :: "char \<Rightarrow> bool" where
  "claimedKept c =
     (isWordChar c \<or> isWhiteSpace c \<or> char_toLowerCase c = a_ring \<or> char_toLowerCase c = a_uml
      \<or> char_toLowerCase c = o_uml)"

section \<open>Properties of deduplicateBusinesses\<close>

text \<open>
  The key of the code, the two normalised strings joined by an underscore, is the key of
  the specification: an underscore does not survive the normalisation.
\<close>

lemma collapse_ws_chars: "c \<in> set (collapse_ws s) \<Longrightarrow> c \<in> set s \<or> c = CHR '' ''"
proof (induction s rule: collapse_ws.induct)
  case 1
  then show ?case by simp
next
  case (2 x xs)
  show ?case
  proof (cases "isWhiteSpace x")
    case True
    with 2 have "c = CHR '' '' \<or> c \<in> set (dropWhile isWhiteSpace xs)"
      by auto
    then show ?thesis
      using set_dropWhileD by fastforce
  next
    case False
    with 2 show ?thesis by auto
  qed
qed

lemma trim_chars: "c \<in> set (trim s) \<Longrightarrow> c \<in> set s"
  unfolding trim_def by (metis set_dropWhileD set_rev)

lemma space_keep: "norm_keep (CHR '' '')"
  by (simp add: norm_keep_def isWhiteSpace_def cu_def)

lemma underscore_not_keep: "\<not> norm_keep (CHR ''_'')"
  by (simp add: norm_keep_def isWhiteSpace_def isLowerAZ_def isDigit_def cu_def)

lemma normalized_chars: "c \<in> set (normalized s) \<Longrightarrow> norm_keep c"
proof -
  assume "c \<in> set (normalized s)"
  then have "c \<in> set (collapse_ws (filter norm_keep (toLowerCase s)))"
    unfolding normalized_def by (rule trim_chars)
  then have "c \<in> set (filter norm_keep (toLowerCase s)) \<or> c = CHR '' ''"
    by (rule collapse_ws_chars)
  then show "norm_keep c"
    using space_keep by auto
qed

lemma dedup_key_pair: "dedup_key a = dedup_key b \<longleftrightarrow> normalized_pair a = normalized_pair b"
proof -
  have "CHR ''_'' \<notin> set (normalized (title a))" "CHR ''_'' \<notin> set (normalized (location a))"
    using normalized_chars underscore_not_keep by blast+
  from append_Cons_eq_iff [OF this] show ?thesis
    by (simp add: dedup_key_def normalized_pair_def)
qed

lemma image_key_pair:
  "dedup_key b \<in> dedup_key ` set bs \<longleftrightarrow> normalized_pair b \<in> normalized_pair ` set bs"
  by (auto simp: image_iff dedup_key_pair)

lemma distinct_key_pair: "distinct (map dedup_key bs) \<longleftrightarrow> distinct (map normalized_pair bs)"
  by (induction bs) (simp_all add: image_key_pair)


lemma dedup_loop_firsts: "dedup_loop seen acc bs = acc @ firsts (dom seen) bs"
  by (induction bs arbitrary: seen acc) (auto simp: Let_def domIff)

lemma firsts_index:
  "firsts S bs = map (\<lambda>i. bs ! i)
       (filter (\<lambda>i. dedup_key (bs ! i) \<notin> S \<union> dedup_key ` set (take i bs)) [0..<length bs])"
proof (induction bs arbitrary: S)
  case Nil
  then show ?case by simp
next
  case (Cons b bs)
  have up: "[0..<length (b # bs)] = 0 # map Suc [0..<length bs]"
    by (simp add: upt_conv_Cons map_Suc_upt del: upt_Suc)
  have tl: "map (\<lambda>i. (b # bs) ! i)
      (filter (\<lambda>i. dedup_key ((b # bs) ! i) \<notin> S \<union> dedup_key ` set (take i (b # bs)))
        (map Suc [0..<length bs]))
    = firsts (insert (dedup_key b) S) bs"
  proof -
    have "(\<lambda>i. dedup_key (bs ! i) \<notin> S \<union> dedup_key ` set (take (Suc i) (b # bs)))
        = (\<lambda>i. dedup_key (bs ! i) \<notin> insert (dedup_key b) S \<union> dedup_key ` set (take i bs))"
      by (rule ext) auto
    then show ?thesis
      by (simp add: Cons.IH [of "insert (dedup_key b) S"] filter_map comp_def conj_ac)
  qed
  show ?case
  proof (cases "dedup_key b \<in> S")
    case True
    then have "insert (dedup_key b) S = S" by auto
    with tl True show ?thesis unfolding up by simp
  next
    case False
    with tl show ?thesis unfolding up by simp
  qed
qed

lemma firsts_subseq: "subseq (firsts S bs) bs"
  by (induction bs arbitrary: S) auto

lemma firsts_keys: "dedup_key ` set (firsts S bs) = dedup_key ` set bs - S"
  by (induction bs arbitrary: S) auto

lemma firsts_distinct: "distinct (map dedup_key (firsts S bs))"
proof (induction bs arbitrary: S)
  case (Cons b bs)
  have "dedup_key b \<notin> dedup_key ` set (firsts (insert (dedup_key b) S) bs)"
    by (simp add: firsts_keys)
  then show ?case using Cons by auto
qed simp

text \<open>
  C8. For every sequence of listings, \<open>deduplicateBusinesses\<close> returns the listings that
  are the first of their normalised key, in the order of the input: a subsequence of the
  input, with no key twice.
\<close>

theorem deduplicateBusinesses_first_per_key:
  "deduplicateBusinesses bs = first_per_key bs
   \<and> subseq (deduplicateBusinesses bs) bs
   \<and> distinct (map normalized_pair (deduplicateBusinesses bs))"
proof -
  have d: "deduplicateBusinesses bs = firsts {} bs"
    by (simp add: deduplicateBusinesses_def dedup_loop_firsts)
  have "firsts {} bs = first_per_key bs"
    by (simp add: firsts_index first_per_key_def image_key_pair)
  with d show ?thesis
    using firsts_subseq [of "{}" bs] firsts_distinct [of "{}" bs] by (simp add: distinct_key_pair)
qed

theorem deduplicateBusinesses_first_per_key_witness:
  "deduplicateBusinesses [sampleListing ''Bageri'' ''Uppsala'' ''5 mkr'',
       sampleListing ''Verkstad'' ''Uppsala'' ''6 mkr'', sampleListing ''BAGERI.'' ''uppsala'' ''7 mkr'']
   = first_per_key [sampleListing ''Bageri'' ''Uppsala'' ''5 mkr'',
       sampleListing ''Verkstad'' ''Uppsala'' ''6 mkr'', sampleListing ''BAGERI.'' ''uppsala'' ''7 mkr'']
   \<and> first_per_key [sampleListing ''Bageri'' ''Uppsala'' ''5 mkr'',
       sampleListing ''Verkstad'' ''Uppsala'' ''6 mkr'', sampleListing ''BAGERI.'' ''uppsala'' ''7 mkr'']
     = [sampleListing ''Bageri'' ''Uppsala'' ''5 mkr'', sampleListing ''Verkstad'' ''Uppsala'' ''6 mkr'']"
proof -
  have a: "deduplicateBusinesses [sampleListing ''Bageri'' ''Uppsala'' ''5 mkr'',
       sampleListing ''Verkstad'' ''Uppsala'' ''6 mkr'', sampleListing ''BAGERI.'' ''uppsala'' ''7 mkr'']
   = first_per_key [sampleListing ''Bageri'' ''Uppsala'' ''5 mkr'',
       sampleListing ''Verkstad'' ''Uppsala'' ''6 mkr'', sampleListing ''BAGERI.'' ''uppsala'' ''7 mkr'']"
    using deduplicateBusinesses_first_per_key by blast
  have b: "first_per_key [sampleListing ''Bageri'' ''Uppsala'' ''5 mkr'',
       sampleListing ''Verkstad'' ''Uppsala'' ''6 mkr'', sampleListing ''BAGERI.'' ''uppsala'' ''7 mkr'']
     = [sampleListing ''Bageri'' ''Uppsala'' ''5 mkr'', sampleListing ''Verkstad'' ''Uppsala'' ''6 mkr'']"
    by code_simp
  from a b show ?thesis by (rule conjI)
qed

lemma cu_eq_iff: "cu c = cu d \<longleftrightarrow> c = d"
  by (simp add: cu_def)

lemma cu_lits: "cu a_ring = 229" "cu a_uml = 228" "cu o_uml = 246" "cu (CHR '' '') = 32" "cu (CHR ''_'') = 95"
  by (simp_all add: cu_def)

lemma eq_lits: "c = a_ring \<longleftrightarrow> cu c = 229" "c = a_uml \<longleftrightarrow> cu c = 228" "c = o_uml \<longleftrightarrow> cu c = 246"
  using cu_eq_iff cu_lits by metis+

lemma lower_ws: "isWhiteSpace c \<Longrightarrow> char_toLowerCase c = c"
  by (auto simp: isWhiteSpace_def char_toLowerCase_def isUpperAZ_def)

lemma ws_keep: "isWhiteSpace c \<Longrightarrow> norm_keep c"
  by (simp add: norm_keep_def)

lemma punct_lower: "isPunctuation c \<Longrightarrow> char_toLowerCase c = c"
  by (auto simp: isPunctuation_def char_toLowerCase_def isUpperAZ_def)

lemma punct_not_keep: "isPunctuation c \<Longrightarrow> \<not> norm_keep c"
  by (auto simp: isPunctuation_def norm_keep_def eq_lits isLowerAZ_def isDigit_def isWhiteSpace_def)

lemma collapse_ws_cong:
  "isWhiteSpace c \<Longrightarrow> isWhiteSpace d \<Longrightarrow> dropWhile isWhiteSpace b = dropWhile isWhiteSpace b'
   \<Longrightarrow> collapse_ws (a @ c # b) = collapse_ws (a @ d # b')"
proof (induction a rule: collapse_ws.induct)
  case 1
  then show ?case by simp
next
  case (2 x xs)
  show ?case
  proof (cases "isWhiteSpace x")
    case False
    with 2 show ?thesis by simp
  next
    case True
    show ?thesis
    proof (cases "\<forall>y\<in>set xs. isWhiteSpace y")
      case all: True
      then have "dropWhile isWhiteSpace (xs @ c # b) = dropWhile isWhiteSpace b"
        "dropWhile isWhiteSpace (xs @ d # b') = dropWhile isWhiteSpace b'"
        using 2(3,4) by simp_all
      with True 2(5) show ?thesis by simp
    next
      case False
      then have "dropWhile isWhiteSpace (xs @ c # b) = dropWhile isWhiteSpace xs @ c # b"
        "dropWhile isWhiteSpace (xs @ d # b') = dropWhile isWhiteSpace xs @ d # b'"
        by (auto simp: dropWhile_append1)
      with True 2 show ?thesis by simp
    qed
  qed
qed

lemma trim_Cons_ws: "isWhiteSpace c \<Longrightarrow> trim (c # s) = trim s"
  by (simp add: trim_def)

lemma trim_snoc_ws: "isWhiteSpace c \<Longrightarrow> trim (s @ [c]) = trim s"
proof (cases "\<forall>y\<in>set s. isWhiteSpace y")
  case True
  assume c: "isWhiteSpace c"
  from True have a: "dropWhile isWhiteSpace s = []" by simp
  from True c have b: "dropWhile isWhiteSpace (s @ [c]) = []" by simp
  show ?thesis unfolding trim_def a b by simp
next
  case False
  assume "isWhiteSpace c"
  with False show ?thesis by (auto simp: trim_def dropWhile_append1)
qed

lemma ws_space: "isWhiteSpace (CHR '' '')"
  by (simp add: isWhiteSpace_def cu_lits)

lemma trim_collapse_leading:
  assumes "isWhiteSpace c" shows "trim (collapse_ws (c # b)) = trim (collapse_ws b)"
proof (cases b)
  case Nil
  with assms show ?thesis by (simp add: trim_Cons_ws ws_space)
next
  case (Cons x xs)
  show ?thesis
  proof (cases "isWhiteSpace x")
    case True
    with assms Cons show ?thesis by (simp add: trim_Cons_ws ws_space)
  next
    case False
    with assms Cons show ?thesis by (simp add: trim_Cons_ws ws_space)
  qed
qed

lemma collapse_ws_snoc:
  "isWhiteSpace c \<Longrightarrow>
   collapse_ws (a @ [c]) = (if a \<noteq> [] \<and> isWhiteSpace (last a) then collapse_ws a else collapse_ws a @ '' '')"
proof (induction a rule: collapse_ws.induct)
  case 1
  then show ?case by simp
next
  case (2 x xs)
  show ?case
  proof (cases "isWhiteSpace x")
    case False
    with 2 show ?thesis by simp
  next
    case True
    show ?thesis
    proof (cases "\<forall>y\<in>set xs. isWhiteSpace y")
      case all: True
      then have a: "dropWhile isWhiteSpace (xs @ [c]) = []" and b: "dropWhile isWhiteSpace xs = []"
        using 2(3) by simp_all
      have l: "isWhiteSpace (last (x # xs))"
        using all True by (cases xs rule: rev_cases) auto
      have "collapse_ws ((x # xs) @ [c]) = '' ''" "collapse_ws (x # xs) = '' ''"
        using True by (simp_all only: append_Cons collapse_ws.simps a b if_True)
      with l show ?thesis by (simp del: last.simps collapse_ws.simps)
    next
      case False
      then have d: "dropWhile isWhiteSpace (xs @ [c]) = dropWhile isWhiteSpace xs @ [c]"
        by (auto simp: dropWhile_append1)
      from False have ne: "dropWhile isWhiteSpace xs \<noteq> []" "xs \<noteq> []"
        by auto
      have "last (dropWhile isWhiteSpace xs) = last xs"
        using ne by (metis takeWhile_dropWhile_id last_appendR)
      with True 2 d ne show ?thesis by simp
    qed
  qed
qed

lemma trim_collapse_trailing:
  assumes "isWhiteSpace c" shows "trim (collapse_ws (a @ [c])) = trim (collapse_ws a)"
  using assms trim_snoc_ws [OF ws_space, of "collapse_ws a"]
  by (simp add: collapse_ws_snoc)

lemma differ_only_normalize: "differ_only s t \<Longrightarrow> normalized s = normalized t"
proof (induction rule: differ_only.induct)
  case (letter_case c d u v)
  then show ?case by (simp add: normalized_def toLowerCase_def)
next
  case (punctuation c u v)
  then show ?case by (simp add: normalized_def toLowerCase_def punct_lower punct_not_keep)
next
  case (run_length c d u v)
  then show ?case
    using collapse_ws_cong [of c c "d # filter norm_keep (toLowerCase v)" "filter norm_keep (toLowerCase v)"]
    by (simp add: normalized_def toLowerCase_def lower_ws ws_keep)
next
  case (run_kind c d u v)
  then show ?case
    using collapse_ws_cong [of c d "filter norm_keep (toLowerCase v)" "filter norm_keep (toLowerCase v)"]
    by (simp add: normalized_def toLowerCase_def lower_ws ws_keep)
next
  case (leading c v)
  then show ?case
    by (simp add: normalized_def toLowerCase_def lower_ws ws_keep trim_collapse_leading del: collapse_ws.simps)
next
  case (trailing c u)
  then show ?case
    by (simp add: normalized_def toLowerCase_def lower_ws ws_keep trim_collapse_trailing del: collapse_ws.simps)
qed simp_all

lemma distinct_filter_one:
  "distinct (map f xs) \<Longrightarrow> k \<in> f ` set xs \<Longrightarrow> length (filter (\<lambda>b. f b = k) xs) = 1"
proof (induction xs)
  case Nil
  then show ?case by simp
next
  case (Cons x xs)
  show ?case
  proof (cases "f x = k")
    case True
    from Cons.prems(1) have "f x \<notin> f ` set xs" by simp
    with True have "\<forall>b\<in>set xs. f b \<noteq> k" by blast
    then have "filter (\<lambda>b. f b = k) xs = []"
      by (simp add: filter_empty_conv)
    with True show ?thesis by simp
  next
    case False
    with Cons show ?thesis by auto
  qed
qed

text \<open>
  C9. When the titles of two listings differ only by case, punctuation or runs of white
  space, and so do their locations, the two have the same key; of the two alone the
  first is kept, and of any sequence that holds them exactly one listing with that key
  is kept.
\<close>

theorem dedup_key_variants:
  assumes "differ_only (title L1) (title L2)" and "differ_only (location L1) (location L2)"
    and "L1 \<in> set bs" and "L2 \<in> set bs"
  shows "dedup_key L1 = dedup_key L2
    \<and> normalized_pair L1 = normalized_pair L2
    \<and> deduplicateBusinesses [L1, L2] = [L1]
    \<and> length (filter (\<lambda>b. dedup_key b = dedup_key L1) (deduplicateBusinesses bs)) = 1"
proof -
  have k: "dedup_key L1 = dedup_key L2"
    using assms(1,2) by (simp add: dedup_key_def differ_only_normalize)
  have two: "deduplicateBusinesses [L1, L2] = [L1]"
    using k by (simp add: deduplicateBusinesses_def Let_def)
  have d: "deduplicateBusinesses bs = firsts {} bs"
    by (simp add: deduplicateBusinesses_def dedup_loop_firsts)
  have "dedup_key L1 \<in> dedup_key ` set (firsts {} bs)"
    using assms(3) by (simp add: firsts_keys)
  then have "length (filter (\<lambda>b. dedup_key b = dedup_key L1) (firsts {} bs)) = 1"
    by (rule distinct_filter_one [OF firsts_distinct])
  with k two d show ?thesis by (simp add: dedup_key_pair)
qed

theorem dedup_key_variants_witness:
  "differ_only ''Bageri AB!'' ''bageri  AB''
   \<and> dedup_key (sampleListing ''Bageri AB!'' ''Uppsala'' ''5 mkr'')
       = dedup_key (sampleListing ''bageri  AB'' ''Uppsala'' ''7 mkr'')
   \<and> deduplicateBusinesses [sampleListing ''Bageri AB!'' ''Uppsala'' ''5 mkr'',
                            sampleListing ''bageri  AB'' ''Uppsala'' ''7 mkr'']
       = [sampleListing ''Bageri AB!'' ''Uppsala'' ''5 mkr'']"
proof -
  have lc: "char_toLowerCase (CHR ''B'') = char_toLowerCase (CHR ''b'')"
    by code_simp
  have p: "isPunctuation (CHR ''!'')" and w: "isWhiteSpace (CHR '' '')"
    by code_simp+
  have "differ_only ''Bageri AB!'' ''bageri AB!''"
    using letter_case [OF lc, of "[]" "''ageri AB!''"] by simp
  moreover have "differ_only ''bageri AB!'' ''bageri AB''"
    using punctuation [OF p, of "''bageri AB''" "[]"] by simp
  moreover have "differ_only ''bageri AB'' ''bageri  AB''"
    using run_length [OF w w, of "''bageri''" "''AB''"] by simp
  ultimately have t: "differ_only ''Bageri AB!'' ''bageri  AB''"
    by (blast intro: differ_only.trans)
  have l: "differ_only ''Uppsala'' ''Uppsala''"
    by (rule same)
  show ?thesis
    using t dedup_key_variants [of "sampleListing ''Bageri AB!'' ''Uppsala'' ''5 mkr''"
        "sampleListing ''bageri  AB'' ''Uppsala'' ''7 mkr''"
        "[sampleListing ''Bageri AB!'' ''Uppsala'' ''5 mkr'', sampleListing ''bageri  AB'' ''Uppsala'' ''7 mkr'']"]
      l
    by (simp add: sampleListing_def)
qed

section \<open>Properties of scrapePage\<close>

lemma scrapePage_last:
  "2 \<le> retryCount \<Longrightarrow> scrapePage net url website retryCount w =
     (case net (length (requests w)) url of
        Inr doc \<Rightarrow>
          (\<lparr>page_success = True, page_website = website, page_url = url, page_error = None,
            page_links = scrapedLinks doc, page_text = scrapedText doc,
            html_length = Some (data_length doc)\<rparr>, w\<lparr>requests := requests w @ [url]\<rparr>)
      | Inl message \<Rightarrow> (failure website url message, w\<lparr>requests := requests w @ [url]\<rparr>))"
  by (subst scrapePage.simps) (simp add: Let_def failure_def split: sum.splits)

lemma scrapePage_retry:
  "retryCount < 2 \<Longrightarrow> net (length (requests w)) url = Inl message \<Longrightarrow>
   scrapePage net url website retryCount w =
     scrapePage net url website (retryCount + 1)
       (w\<lparr>requests := requests w @ [url], waits := waits w @ [2000 * (retryCount + 1)]\<rparr>)"
  by (subst scrapePage.simps) (simp add: Let_def)

lemma scrapePage_loaded:
  "net (length (requests w)) url = Inr doc \<Longrightarrow>
   scrapePage net url website retryCount w =
     (\<lparr>page_success = True, page_website = website, page_url = url, page_error = None,
       page_links = scrapedLinks doc, page_text = scrapedText doc,
       html_length = Some (data_length doc)\<rparr>, w\<lparr>requests := requests w @ [url]\<rparr>)"
  by (subst scrapePage.simps) (simp add: Let_def)

lemma scrapePage_exhausted:
  assumes "net (length (requests w)) url = Inl e0"
    and "net (length (requests w) + 1) url = Inl e1"
    and "net (length (requests w) + 2) url = Inl e2"
  shows "scrapePage net url website 0 w =
     (failure website url e2,
      w\<lparr>requests := requests w @ [url, url, url], waits := waits w @ [2000, 4000]\<rparr>)"
proof -
  let ?w1 = "w\<lparr>requests := requests w @ [url], waits := waits w @ [2000 * (0 + 1)]\<rparr>"
  let ?w2 = "?w1\<lparr>requests := requests ?w1 @ [url], waits := waits ?w1 @ [2000 * (1 + 1)]\<rparr>"
  have "scrapePage net url website 0 w = scrapePage net url website (0 + 1) ?w1"
    using assms(1) by (intro scrapePage_retry) simp_all
  also have "\<dots> = scrapePage net url website (1 + 1) ?w2"
    using assms(2) by (simp add: scrapePage_retry)
  also have "\<dots> = (failure website url e2, ?w2\<lparr>requests := requests ?w2 @ [url]\<rparr>)"
    using assms(3) by (simp add: scrapePage_last)
  finally show ?thesis by simp
qed

lemma scrapePage_attempts:
  "\<exists>k. 1 \<le> k \<and> k \<le> 3 \<and> requests (snd (scrapePage net url website 0 w)) = requests w @ replicate k url
     \<and> waits (snd (scrapePage net url website 0 w)) = waits w @ map (\<lambda>i. 2000 * (i + 1)) [0..<k - 1]"
proof (cases "net (length (requests w)) url")
  case (Inr doc)
  then show ?thesis
    by (intro exI [of _ 1]) (simp add: scrapePage_loaded)
next
  case e0: (Inl e0)
  let ?w1 = "w\<lparr>requests := requests w @ [url], waits := waits w @ [2000 * (0 + 1)]\<rparr>"
  have s1: "scrapePage net url website 0 w = scrapePage net url website (0 + 1) ?w1"
    using e0 by (intro scrapePage_retry) simp_all
  show ?thesis
  proof (cases "net (length (requests w) + 1) url")
    case (Inr doc)
    then show ?thesis
      unfolding s1 by (intro exI [of _ 2]) (simp add: scrapePage_loaded numeral_2_eq_2)
  next
    case e1: (Inl e1)
    let ?w2 = "?w1\<lparr>requests := requests ?w1 @ [url], waits := waits ?w1 @ [2000 * (1 + 1)]\<rparr>"
    have s2: "scrapePage net url website (0 + 1) ?w1 = scrapePage net url website (1 + 1) ?w2"
      using e1 by (simp add: scrapePage_retry)
    show ?thesis
      unfolding s1 s2
      by (intro exI [of _ 3]) (simp add: scrapePage_last upt_rec numeral_3_eq_3 split: sum.splits)
  qed
qed

text \<open>
  C6. Whatever the network does, \<open>scrapePage\<close> asks for its URL at least once and at
  most three times, and for nothing else. When the three attempts fail, it has waited
  2000 ms and then 4000 ms, 6000 ms in all, and returns the failure variant: the message
  of the last error, no links and no text.
\<close>

theorem scrapePage_retry_bound:
  "(\<exists>k. 1 \<le> k \<and> k \<le> 3 \<and> requests (snd (scrapePage net url website 0 w)) = requests w @ replicate k url)
   \<and> (net (length (requests w)) url = Inl e0 \<and> net (length (requests w) + 1) url = Inl e1
        \<and> net (length (requests w) + 2) url = Inl e2
      \<longrightarrow> drop (length (waits w)) (waits (snd (scrapePage net url website 0 w))) = [2000, 4000]
        \<and> sum_list (drop (length (waits w)) (waits (snd (scrapePage net url website 0 w)))) = 6000
        \<and> length (requests (snd (scrapePage net url website 0 w))) = length (requests w) + 3
        \<and> fst (scrapePage net url website 0 w) =
            \<lparr>page_success = False, page_website = website, page_url = url, page_error = Some e2,
             page_links = [], page_text = [], html_length = None\<rparr>)"
proof (intro conjI impI)
  show "\<exists>k. 1 \<le> k \<and> k \<le> 3 \<and> requests (snd (scrapePage net url website 0 w)) = requests w @ replicate k url"
    using scrapePage_attempts [of net url website w] by blast
next
  assume a: "net (length (requests w)) url = Inl e0 \<and> net (length (requests w) + 1) url = Inl e1
        \<and> net (length (requests w) + 2) url = Inl e2"
  then have e: "scrapePage net url website 0 w =
     (failure website url e2,
      w\<lparr>requests := requests w @ [url, url, url], waits := waits w @ [2000, 4000]\<rparr>)"
    by (intro scrapePage_exhausted) simp_all
  show "drop (length (waits w)) (waits (snd (scrapePage net url website 0 w))) = [2000, 4000]"
    by (simp add: e)
  show "sum_list (drop (length (waits w)) (waits (snd (scrapePage net url website 0 w)))) = 6000"
    by (simp add: e)
  show "length (requests (snd (scrapePage net url website 0 w))) = length (requests w) + 3"
    by (simp add: e)
  show "fst (scrapePage net url website 0 w) =
            \<lparr>page_success = False, page_website = website, page_url = url, page_error = Some e2,
             page_links = [], page_text = [], html_length = None\<rparr>"
    by (simp add: e failure_def)
qed

theorem scrapePage_retry_bound_witness:
  "drop (length (waits initial_world))
     (waits (snd (scrapePage (\<lambda>n u. Inl ''timeout of 25000ms exceeded'') ''https://objektvision.se/'' ''objektvision'' 0 initial_world)))
     = [2000, 4000]
   \<and> sum_list (drop (length (waits initial_world))
     (waits (snd (scrapePage (\<lambda>n u. Inl ''timeout of 25000ms exceeded'') ''https://objektvision.se/'' ''objektvision'' 0 initial_world))))
     = 6000
   \<and> length (requests (snd (scrapePage (\<lambda>n u. Inl ''timeout of 25000ms exceeded'') ''https://objektvision.se/'' ''objektvision'' 0 initial_world)))
     = length (requests initial_world) + 3
   \<and> fst (scrapePage (\<lambda>n u. Inl ''timeout of 25000ms exceeded'') ''https://objektvision.se/'' ''objektvision'' 0 initial_world)
     = \<lparr>page_success = False, page_website = ''objektvision'', page_url = ''https://objektvision.se/'',
        page_error = Some ''timeout of 25000ms exceeded'', page_links = [], page_text = [], html_length = None\<rparr>"
  using scrapePage_retry_bound [of "\<lambda>n u. Inl ''timeout of 25000ms exceeded''" "''https://objektvision.se/''"
      "''objektvision''" initial_world "''timeout of 25000ms exceeded''" "''timeout of 25000ms exceeded''"
      "''timeout of 25000ms exceeded''"]
  by simp

section \<open>Properties of the crawl of a site\<close>

lemma string_of_nat_3: "string_of_nat 3 = ''3''" and string_of_nat_2: "string_of_nat 2 = ''2''"
  by code_simp+

lemma pageUrl_distinct:
  "pageUrl config 3 \<noteq> pageUrl config 1" "pageUrl config 3 \<noteq> pageUrl config 2"
  by (simp_all add: pageUrl_def string_of_nat_3 string_of_nat_2)

lemma page_loop_stop:
  assumes "page \<le> maxPages config"
    and "\<not> (page_success (fst (scrapePage net (pageUrl config page) websiteName 0 w))
            \<and> (length (page_links (fst (scrapePage net (pageUrl config page) websiteName 0 w))) > 0
               \<or> length (page_text (fst (scrapePage net (pageUrl config page) websiteName 0 w))) > 0))"
  shows "page_loop net websiteName config page allBusinesses w =
           (allBusinesses, snd (scrapePage net (pageUrl config page) websiteName 0 w))"
  using assms by (subst page_loop.simps) (auto simp: Let_def)

lemma page_loop_next:
  assumes "page \<le> maxPages config"
    and "page_success (fst (scrapePage net (pageUrl config page) websiteName 0 w))
            \<and> (length (page_links (fst (scrapePage net (pageUrl config page) websiteName 0 w))) > 0
               \<or> length (page_text (fst (scrapePage net (pageUrl config page) websiteName 0 w))) > 0)"
  shows "page_loop net websiteName config page allBusinesses w =
           page_loop net websiteName config (page + 1)
             (allBusinesses @ findBusinessListings (fst (scrapePage net (pageUrl config page) websiteName 0 w)) config)
             ((snd (scrapePage net (pageUrl config page) websiteName 0 w))
                \<lparr>waits := waits (snd (scrapePage net (pageUrl config page) websiteName 0 w)) @ [3000]\<rparr>)"
  using assms by (subst page_loop.simps) (auto simp: Let_def)

text \<open>
  C7. For a site of at least three pages: if whatever the fetch of page 2 returns has no
  links and no text, then the crawl of the site never asks for page 3; all it asks for
  is page 1 and page 2.
\<close>

theorem pagination_early_stop:
  assumes "3 \<le> maxPages config"
    and "\<forall>w'. page_links (fst (scrapePage net (pageUrl config 2) websiteName 0 w')) = []
            \<and> page_text (fst (scrapePage net (pageUrl config 2) websiteName 0 w')) = []"
  shows "pageUrl config 3 \<notin> set (drop (length (requests w))
            (requests (snd (page_loop net websiteName config 1 [] w))))
    \<and> set (drop (length (requests w)) (requests (snd (page_loop net websiteName config 1 [] w))))
        \<subseteq> {pageUrl config 1, pageUrl config 2}"
proof -
  let ?f1 = "scrapePage net (pageUrl config 1) websiteName 0 w"
  obtain k1 where k1: "requests (snd ?f1) = requests w @ replicate k1 (pageUrl config 1)"
    using scrapePage_attempts [of net "pageUrl config 1" websiteName w] by blast
  have sub: "set (drop (length (requests w)) (requests (snd (page_loop net websiteName config 1 [] w))))
        \<subseteq> {pageUrl config 1, pageUrl config 2}"
  proof (cases "page_success (fst ?f1) \<and> (length (page_links (fst ?f1)) > 0 \<or> length (page_text (fst ?f1)) > 0)")
    case False
    have "page_loop net websiteName config 1 [] w = ([], snd ?f1)"
      using assms(1) False by (intro page_loop_stop) simp_all
    with k1 show ?thesis by auto
  next
    case True
    let ?w2 = "(snd ?f1)\<lparr>waits := waits (snd ?f1) @ [3000]\<rparr>"
    let ?b1 = "[] @ findBusinessListings (fst ?f1) config"
    let ?f2 = "scrapePage net (pageUrl config 2) websiteName 0 ?w2"
    have "(1::nat) \<le> maxPages config" and le2: "(2::nat) \<le> maxPages config"
      using assms(1) by simp_all
    then have "page_loop net websiteName config 1 [] w = page_loop net websiteName config (1 + 1) ?b1 ?w2"
      using True by (intro page_loop_next)
    then have one: "page_loop net websiteName config 1 [] w = page_loop net websiteName config 2 ?b1 ?w2"
      by (simp only: one_add_one)
    have "\<not> (page_success (fst ?f2) \<and> (length (page_links (fst ?f2)) > 0 \<or> length (page_text (fst ?f2)) > 0))"
      using assms(2) by simp
    with le2 have two: "page_loop net websiteName config 2 ?b1 ?w2 = (?b1, snd ?f2)"
      by (rule page_loop_stop)
    obtain k2 where k2: "requests (snd ?f2) = requests ?w2 @ replicate k2 (pageUrl config 2)"
      using scrapePage_attempts [of net "pageUrl config 2" websiteName ?w2] by blast
    show ?thesis
      unfolding one two using k1 k2 by auto
  qed
  with pageUrl_distinct [of config] show ?thesis by blast
qed

theorem pagination_early_stop_witness:
  "3 \<le> maxPages (snd (WEBSITES ! 2))
   \<and> pageUrl (snd (WEBSITES ! 2)) 3 \<notin> set (drop (length (requests initial_world))
        (requests (snd (page_loop
           (\<lambda>n url. if url = pageUrl (snd (WEBSITES ! 2)) 2 then Inr emptyDocument else Inr sampleDocument)
           ''objektvision'' (snd (WEBSITES ! 2)) 1 [] initial_world))))"
proof -
  let ?net = "\<lambda>(n::nat) url. if url = pageUrl (snd (WEBSITES ! 2)) 2 then Inr emptyDocument else Inr sampleDocument"
  have m: "3 \<le> maxPages (snd (WEBSITES ! 2))"
    by (simp add: WEBSITES_def)
  have "\<And>w'. scrapePage ?net (pageUrl (snd (WEBSITES ! 2)) 2) ''objektvision'' 0 w' =
     (\<lparr>page_success = True, page_website = ''objektvision'', page_url = pageUrl (snd (WEBSITES ! 2)) 2,
       page_error = None, page_links = scrapedLinks emptyDocument, page_text = scrapedText emptyDocument,
       html_length = Some (data_length emptyDocument)\<rparr>,
      w'\<lparr>requests := requests w' @ [pageUrl (snd (WEBSITES ! 2)) 2]\<rparr>)"
    by (rule scrapePage_loaded) simp
  then have h: "\<forall>w'. page_links (fst (scrapePage ?net (pageUrl (snd (WEBSITES ! 2)) 2) ''objektvision'' 0 w')) = []
            \<and> page_text (fst (scrapePage ?net (pageUrl (snd (WEBSITES ! 2)) 2) ''objektvision'' 0 w')) = []"
    by (simp add: scrapedLinks_def scrapedText_def emptyDocument_def)
  from pagination_early_stop [OF m h, of initial_world] m show ?thesis by simp
qed

section \<open>Properties of scrapeAllWebsites\<close>

lemma successful_total_add:
  assumes "finite (dom ws)" and "n \<notin> dom ws"
  shows "successful_total (ws(n \<mapsto> r)) = successful_total ws + (if site_success r then count r else 0)"
proof -
  let ?S = "{m \<in> dom ws. site_success (the (ws m))}"
  have fin: "finite ?S" using assms(1) by simp
  have nin: "n \<notin> ?S" using assms(2) by simp
  have same: "(\<Sum>m \<in> ?S. count (the ((ws(n \<mapsto> r)) m))) = (\<Sum>m \<in> ?S. count (the (ws m)))"
    using nin by (intro sum.cong) auto
  show ?thesis
  proof (cases "site_success r")
    case True
    then have "{m \<in> dom (ws(n \<mapsto> r)). site_success (the ((ws(n \<mapsto> r)) m))} = insert n ?S"
      by auto
    then show ?thesis
      using True fin nin same by (simp add: successful_total_def)
  next
    case False
    then have "{m \<in> dom (ws(n \<mapsto> r)). site_success (the ((ws(n \<mapsto> r)) m))} = ?S"
      using assms(2) by auto
    then show ?thesis
      using False same by (simp add: successful_total_def)
  qed
qed

lemma site_loop_summary:
  assumes "distinct (map fst sites)" and "fst ` set sites \<inter> dom (websites res) = {}"
    and "finite (dom (websites res))"
    and "total_businesses (summary res) = successful_total (websites res)"
  shows "successful_sites (summary (fst (site_loop crawl sites res w)))
           + failed_sites (summary (fst (site_loop crawl sites res w)))
         = successful_sites (summary res) + failed_sites (summary res) + length sites
    \<and> dom (websites (fst (site_loop crawl sites res w))) = dom (websites res) \<union> fst ` set sites
    \<and> total_businesses (summary (fst (site_loop crawl sites res w)))
         = successful_total (websites (fst (site_loop crawl sites res w)))"
  using assms
proof (induction sites arbitrary: res w)
  case Nil
  then show ?case by simp
next
  case (Cons entry rest)
  obtain websiteName config where entry: "entry = (websiteName, config)"
    by (cases entry)
  let ?crawled = "crawl websiteName config w"
  let ?w1 = "(snd ?crawled)\<lparr>waits := waits (snd ?crawled) @ [2000]\<rparr>"
  have fresh: "websiteName \<notin> dom (websites res)"
    using Cons.prems(2) entry by auto
  show ?case
  proof (cases "fst ?crawled")
    case (Inr allBusinesses)
    let ?r = "\<lparr>site_success = True, site_url = listingUrl config,
               count = length allBusinesses, businesses = allBusinesses, site_error = None,
               pages_scraped = Some (pagesScraped config allBusinesses)\<rparr>"
    let ?res1 = "res\<lparr>websites := (websites res)(websiteName \<mapsto> ?r),
                   summary := (summary res)
                     \<lparr>successful_sites := successful_sites (summary res) + 1,
                      total_businesses := total_businesses (summary res) + length allBusinesses\<rparr>\<rparr>"
    have step: "site_loop crawl (entry # rest) res w = site_loop crawl rest ?res1 ?w1"
      using Inr entry by (simp add: Let_def)
    have p1: "distinct (map fst rest)"
      using Cons.prems(1) by simp
    have p2: "fst ` set rest \<inter> dom (websites ?res1) = {}"
      using Cons.prems(1,2) entry by auto
    have p3: "finite (dom (websites ?res1))"
      using Cons.prems(3) by simp
    have p4: "total_businesses (summary ?res1) = successful_total (websites ?res1)"
      using Cons.prems(3,4) fresh by (simp add: successful_total_add)
    have d: "dom (websites ?res1) \<union> fst ` set rest = dom (websites res) \<union> fst ` set (entry # rest)"
      using entry by auto
    have n: "successful_sites (summary ?res1) + failed_sites (summary ?res1) + length rest
        = successful_sites (summary res) + failed_sites (summary res) + length (entry # rest)"
      by simp
    show ?thesis
      unfolding step using Cons.IH [OF p1 p2 p3 p4, of ?w1] d n by presburger
  next
    case (Inl message)
    let ?r = "\<lparr>site_success = False, site_url = listingUrl config,
               count = 0, businesses = [], site_error = Some message, pages_scraped = None\<rparr>"
    let ?res1 = "res\<lparr>websites := (websites res)(websiteName \<mapsto> ?r),
                   summary := (summary res)\<lparr>failed_sites := failed_sites (summary res) + 1\<rparr>\<rparr>"
    have step: "site_loop crawl (entry # rest) res w = site_loop crawl rest ?res1 ?w1"
      using Inl entry by (simp add: Let_def)
    have p1: "distinct (map fst rest)"
      using Cons.prems(1) by simp
    have p2: "fst ` set rest \<inter> dom (websites ?res1) = {}"
      using Cons.prems(1,2) entry by auto
    have p3: "finite (dom (websites ?res1))"
      using Cons.prems(3) by simp
    have p4: "total_businesses (summary ?res1) = successful_total (websites ?res1)"
      using Cons.prems(3,4) fresh by (simp add: successful_total_add)
    have d: "dom (websites ?res1) \<union> fst ` set rest = dom (websites res) \<union> fst ` set (entry # rest)"
      using entry by auto
    have n: "successful_sites (summary ?res1) + failed_sites (summary ?res1) + length rest
        = successful_sites (summary res) + failed_sites (summary res) + length (entry # rest)"
      by simp
    show ?thesis
      unfolding step using Cons.IH [OF p1 p2 p3 p4, of ?w1] d n by presburger
  qed
qed

lemma WEBSITES_sorted: "sort_key (\<lambda>entry. priority (snd entry)) WEBSITES = WEBSITES"
  by code_simp

lemma WEBSITES_names:
  "map fst WEBSITES = [''exitpartner'', ''bolagsplatsen'', ''objektvision'', ''smergers'']"
  by (simp add: WEBSITES_def)

text \<open>
  C10. After \<open>scrapeAllWebsites\<close>, whatever the network did, the successful and the
  failed sites are together the four configured sites, the mapping has an entry for
  exactly the configured sites, and the total is the sum of the counts of the sites
  recorded as successful.
\<close>

theorem scrapeAllWebsites_summary:
  "successful_sites (summary (fst (scrapeAllWebsites net))) + failed_sites (summary (fst (scrapeAllWebsites net)))
     = length WEBSITES
   \<and> length WEBSITES = 4
   \<and> dom (websites (fst (scrapeAllWebsites net))) = fst ` set WEBSITES
   \<and> total_businesses (summary (fst (scrapeAllWebsites net)))
       = successful_total (websites (fst (scrapeAllWebsites net)))"
proof -
  have run: "scrapeAllWebsites net = site_loop (crawlSite net) WEBSITES initial_results initial_world"
    by (simp only: scrapeAllWebsites_def scrapeSites_def WEBSITES_sorted Let_def)
  have d: "distinct (map fst WEBSITES)"
    by (simp add: WEBSITES_names)
  have i: "fst ` set WEBSITES \<inter> dom (websites initial_results) = {}"
    "finite (dom (websites initial_results))"
    "total_businesses (summary initial_results) = successful_total (websites initial_results)"
    by (simp_all add: initial_results_def successful_total_def)
  have z: "successful_sites (summary initial_results) + failed_sites (summary initial_results) = 0"
    "dom (websites initial_results) = {}"
    by (simp_all add: initial_results_def)
  have four: "length WEBSITES = 4"
    by (simp add: WEBSITES_def)
  from site_loop_summary [OF d i, of "crawlSite net" initial_world] z four
  show ?thesis
    unfolding run by simp
qed

theorem scrapeAllWebsites_summary_witness:
  "successful_sites (summary (fst (scrapeAllWebsites (\<lambda>n url. Inl ''getaddrinfo ENOTFOUND''))))
     + failed_sites (summary (fst (scrapeAllWebsites (\<lambda>n url. Inl ''getaddrinfo ENOTFOUND'')))) = 4
   \<and> dom (websites (fst (scrapeAllWebsites (\<lambda>n url. Inl ''getaddrinfo ENOTFOUND''))))
       = {''exitpartner'', ''bolagsplatsen'', ''objektvision'', ''smergers''}"
  using scrapeAllWebsites_summary [of "\<lambda>n url. Inl ''getaddrinfo ENOTFOUND''"]
  by (simp add: WEBSITES_def)

text \<open>The \<open>catch\<close> branch is never entered: no run records a failed site.\<close>

lemma crawlSite_Inr: "\<exists>bs. fst (crawlSite net websiteName config w) = Inr bs"
  by (simp add: crawlSite_def Let_def)

lemma site_loop_no_failed:
  "failed_sites (summary (fst (site_loop (crawlSite net) sites res w))) = failed_sites (summary res)
   \<and> successful_sites (summary (fst (site_loop (crawlSite net) sites res w)))
       = successful_sites (summary res) + length sites"
proof (induction sites arbitrary: res w)
  case Nil
  then show ?case by simp
next
  case (Cons entry rest)
  obtain websiteName config where entry: "entry = (websiteName, config)"
    by (cases entry)
  obtain bs where bs: "fst (crawlSite net websiteName config w) = Inr bs"
    using crawlSite_Inr by blast
  show ?case
    unfolding entry by (simp add: Let_def bs Cons.IH)
qed

lemma scrapeSites_no_failed:
  "failed_sites (summary (fst (scrapeSites sites net))) = 0
   \<and> successful_sites (summary (fst (scrapeSites sites net))) = length sites"
  by (simp add: scrapeSites_def Let_def site_loop_no_failed initial_results_def)

lemma mock_run:
  "summary (fst (scrapeSites mockSites (mockNetwork message))) =
     \<lparr>total_businesses = 2, successful_sites = 2, failed_sites = 0\<rparr>
   \<and> websites (fst (scrapeSites mockSites (mockNetwork message))) ''beta'' =
     Some \<lparr>site_success = True, site_url = ''https://beta.example/list'', count = 0, businesses = [],
            site_error = None, pages_scraped = Some 0\<rparr>
   \<and> map title (businesses (the (websites (fst (scrapeSites mockSites (mockNetwork message))) ''alpha'')))
       = [''Bageri till salu i Uppsala'', ''Verkstad bolag i Uppsala'']"
  by code_simp

lemma mock_scenario:
  "map extractTitle (filter isBusiness (listingBlocks (join_LF (scrapedText mockDocument))))
     = [''Bageri till salu i Uppsala'', ''Verkstad bolag i Uppsala'', ''Bageri till salu i Uppsala'']"
  by code_simp

lemma mock_beta_fails:
  "fst (scrapePage (mockNetwork message) ''https://beta.example/list'' ''beta'' 0 w)
     = failure ''beta'' ''https://beta.example/list'' message"
  by (simp add: scrapePage_exhausted mockNetwork_def)

text \<open>
  C1 (as the code has it). On the two mocked sites, the first holding three qualifying
  blocks of which the third repeats the title of the first, the second failing every
  request: the summary reports two listings, two successful sites and no failed site,
  and the record of the failing site has \<open>success = true\<close>, no error, no listings and the
  count 0. A fetch that fails ends the pagination of its site; it does not fail the site.
\<close>

theorem mocked_run_counts:
  "map extractTitle (filter isBusiness (listingBlocks (join_LF (scrapedText mockDocument))))
     = [''Bageri till salu i Uppsala'', ''Verkstad bolag i Uppsala'', ''Bageri till salu i Uppsala'']
   \<and> fst (scrapePage (mockNetwork message) ''https://beta.example/list'' ''beta'' 0 initial_world)
     = failure ''beta'' ''https://beta.example/list'' message
   \<and> summary (fst (scrapeSites mockSites (mockNetwork message))) =
     \<lparr>total_businesses = 2, successful_sites = 2, failed_sites = 0\<rparr>
   \<and> websites (fst (scrapeSites mockSites (mockNetwork message))) ''beta'' =
     Some \<lparr>site_success = True, site_url = ''https://beta.example/list'', count = 0, businesses = [],
            site_error = None, pages_scraped = Some 0\<rparr>"
  using mock_run [of message] mock_scenario mock_beta_fails [of message initial_world] by simp

theorem mocked_run_counts_witness:
  "summary (fst (scrapeSites mockSites (mockNetwork ''connect ECONNREFUSED''))) =
     \<lparr>total_businesses = 2, successful_sites = 2, failed_sites = 0\<rparr>
   \<and> websites (fst (scrapeSites mockSites (mockNetwork ''connect ECONNREFUSED''))) ''beta'' =
     Some \<lparr>site_success = True, site_url = ''https://beta.example/list'', count = 0, businesses = [],
            site_error = None, pages_scraped = Some 0\<rparr>"
  using mocked_run_counts [of "''connect ECONNREFUSED''"] by simp

theorem mocked_run_counterexample:
  "\<not> (successful_sites (summary (fst (scrapeSites mockSites (mockNetwork ''connect ECONNREFUSED'')))) = 1
      \<and> failed_sites (summary (fst (scrapeSites mockSites (mockNetwork ''connect ECONNREFUSED'')))) = 1
      \<and> total_businesses (summary (fst (scrapeSites mockSites (mockNetwork ''connect ECONNREFUSED'')))) = 2
      \<and> site_success (the (websites (fst (scrapeSites mockSites (mockNetwork ''connect ECONNREFUSED''))) ''beta'')) = False
      \<and> site_error (the (websites (fst (scrapeSites mockSites (mockNetwork ''connect ECONNREFUSED''))) ''beta'')) \<noteq> None
      \<and> businesses (the (websites (fst (scrapeSites mockSites (mockNetwork ''connect ECONNREFUSED''))) ''beta'')) = [])"
  using mock_run [of "''connect ECONNREFUSED''"] by simp

section \<open>Properties of findBusinessListings\<close>

lemma block_loop_source:
  "\<forall>b\<in>set acc. website_source b = name config \<Longrightarrow>
   \<forall>b\<in>set (block_loop raw config seen acc blocks). website_source b = name config"
proof (induction blocks arbitrary: seen acc)
  case Nil
  then show ?case by simp
next
  case (Cons block blocks)
  let ?b = "makeListing raw config block (extractTitle block)"
  have "\<forall>b\<in>set (acc @ [?b]). website_source b = name config"
    using Cons.prems by (simp add: makeListing_def)
  then have "\<forall>b\<in>set (block_loop raw config (insert (extractTitle block) seen) (acc @ [?b]) blocks).
      website_source b = name config"
    by (rule Cons.IH)
  moreover have "\<forall>b\<in>set (block_loop raw config seen acc blocks). website_source b = name config"
    using Cons.prems by (rule Cons.IH)
  ultimately show ?case
    by (simp add: Let_def)
qed

lemma WEBSITES_no_name: "(websiteName, config) \<in> set WEBSITES \<Longrightarrow> name config = None"
  by (auto simp: WEBSITES_def)

text \<open>
  C3 (the code departs from it). Every listing extracted for a site of \<open>WEBSITES\<close> has
  \<open>website_source\<close> undefined, not the identifier of the site: the configurations have
  no property \<open>name\<close>.
\<close>

theorem website_source_undefined:
  assumes "(websiteName, config) \<in> set WEBSITES"
    and "b \<in> set (findBusinessListings rawScrapedData config)"
  shows "website_source b = None \<and> website_source b \<noteq> Some websiteName"
proof -
  have "\<forall>b\<in>set (findBusinessListings rawScrapedData config). website_source b = name config"
    unfolding findBusinessListings_def Let_def by (rule block_loop_source) simp
  with assms show ?thesis
    by (simp add: WEBSITES_no_name)
qed

lemma sample_listings:
  "map title (findBusinessListings samplePage (snd (hd WEBSITES))) = [''Bageri till salu i Uppsala'']
   \<and> fst (hd WEBSITES) = ''exitpartner''"
  by code_simp

theorem website_source_undefined_witness:
  "(''exitpartner'', snd (hd WEBSITES)) \<in> set WEBSITES
   \<and> hd (findBusinessListings samplePage (snd (hd WEBSITES)))
       \<in> set (findBusinessListings samplePage (snd (hd WEBSITES)))
   \<and> title (hd (findBusinessListings samplePage (snd (hd WEBSITES)))) = ''Bageri till salu i Uppsala''
   \<and> website_source (hd (findBusinessListings samplePage (snd (hd WEBSITES)))) = None"
proof -
  have m: "(''exitpartner'', snd (hd WEBSITES)) \<in> set WEBSITES"
    by (simp add: WEBSITES_def)
  have ne: "findBusinessListings samplePage (snd (hd WEBSITES)) \<noteq> []"
    using sample_listings by auto
  then have h: "hd (findBusinessListings samplePage (snd (hd WEBSITES)))
       \<in> set (findBusinessListings samplePage (snd (hd WEBSITES)))"
    by simp
  have t: "title (hd (findBusinessListings samplePage (snd (hd WEBSITES)))) = ''Bageri till salu i Uppsala''"
    using sample_listings ne by (cases "findBusinessListings samplePage (snd (hd WEBSITES))") auto
  from website_source_undefined [OF m h] m h t show ?thesis by simp
qed

text \<open>
  C4 (as the code has it). The text of the example is cut into exactly two blocks: the
  first ends right before the revenue word, the second runs from there to the end of the
  text. There is no cut before the last \<open>oms\<close>, which no dot follows.
\<close>

theorem segmentation_blocks:
  "listingBlocks segmentationText =
     [''Foo bar'' @ [LF],
      ''Oms'' @ [a_uml] @ ''ttning 20 mkr f'' @ [o_uml] @ ''retag till salu'' @ [LF]
      @ ''Bar baz'' @ [LF] @ ''oms 5 mkr bolag'']"
  by code_simp

theorem segmentation_counterexample:
  "\<not> (length (listingBlocks segmentationText) = 2
      \<and> listingBlocks segmentationText ! 0 = ''Foo bar'' @ [LF]
      \<and> listingBlocks segmentationText ! 1
          = ''Oms'' @ [a_uml] @ ''ttning 20 mkr f'' @ [o_uml] @ ''retag till salu'' @ [LF] @ ''Bar baz'' @ [LF])"
  by code_simp

lemma lower_capitals:
  "char_toLowerCase A_ring = a_ring" "char_toLowerCase A_uml = a_uml" "char_toLowerCase O_uml = o_uml"
  by code_simp+

lemma title_keep_claimed: "title_keep c \<Longrightarrow> claimedKept c \<or> c = CHR ''-''"
  by (auto simp: title_keep_def claimedKept_def lower_capitals)

lemma block_loop_titles:
  assumes "\<forall>b\<in>set acc. \<exists>block\<in>S. isBusiness block \<and> title b = extractTitle block \<and> title b \<noteq> []"
    and "set blocks \<subseteq> S"
  shows "\<forall>b\<in>set (block_loop raw config seen acc blocks).
           \<exists>block\<in>S. isBusiness block \<and> title b = extractTitle block \<and> title b \<noteq> []"
  using assms
proof (induction blocks arbitrary: seen acc)
  case Nil
  then show ?case by simp
next
  case (Cons block blocks)
  have sub: "set blocks \<subseteq> S" and mem: "block \<in> S"
    using Cons.prems(2) by simp_all
  show ?case
  proof (cases "isBusiness block \<and> \<not> (extractTitle block = [] \<or> extractTitle block \<in> seen)")
    case True
    let ?b = "makeListing raw config block (extractTitle block)"
    have "\<forall>b\<in>set (acc @ [?b]). \<exists>block\<in>S. isBusiness block \<and> title b = extractTitle block \<and> title b \<noteq> []"
      using Cons.prems(1) True mem by (auto simp: makeListing_def)
    then have "\<forall>b\<in>set (block_loop raw config (insert (extractTitle block) seen) (acc @ [?b]) blocks).
        \<exists>block\<in>S. isBusiness block \<and> title b = extractTitle block \<and> title b \<noteq> []"
      using sub by (rule Cons.IH)
    with True show ?thesis by (simp add: Let_def)
  next
    case False
    have "\<forall>b\<in>set (block_loop raw config seen acc blocks).
        \<exists>block\<in>S. isBusiness block \<and> title b = extractTitle block \<and> title b \<noteq> []"
      using Cons.prems(1) sub by (rule Cons.IH)
    with False show ?thesis by (auto simp: Let_def)
  qed
qed

lemma extractTitle_candidate:
  assumes "extractTitle block \<noteq> []"
  shows "\<exists>pre line post. split_LF block = pre @ line # post
     \<and> (\<forall>l\<in>set pre. \<not> isTitleCandidate l) \<and> isTitleCandidate line
     \<and> extractTitle block = filter title_keep (trim line)"
proof -
  from assms obtain line rest where c: "titleCandidates block = line # rest"
    by (cases "titleCandidates block") (simp_all add: extractTitle_def)
  then obtain pre post where "split_LF block = pre @ line # post"
    "\<forall>l\<in>set pre. \<not> isTitleCandidate l" "isTitleCandidate line"
    unfolding titleCandidates_def filter_eq_Cons_iff by blast
  moreover have "extractTitle block = filter title_keep (trim line)"
    by (simp add: extractTitle_def c)
  ultimately show ?thesis by blast
qed

text \<open>
  C5 (as the code has it). The title of every extracted listing comes from a qualifying
  block of the page: it is taken from the first line of the block whose trimmed length
  exceeds 10 and which contains neither \<open>http\<close> nor the revenue word; it is the trimmed
  line with characters removed; every word character, white-space character, hyphen and
  capital Swedish letter of the trimmed line is kept, in order; and every character of the
  title is a word character, white space, a hyphen or a Swedish letter.
\<close>

theorem title_of_listing:
  assumes "b \<in> set (findBusinessListings rawScrapedData websiteConfig)"
  shows "\<exists>block pre line post.
       block \<in> set (listingBlocks (join_LF (page_text rawScrapedData))) \<and> isBusiness block
     \<and> split_LF block = pre @ line # post
     \<and> (\<forall>l\<in>set pre. \<not> (length (trim l) > 10 \<and> \<not> str_includes l ''http''
                             \<and> \<not> str_includes l (''Oms'' @ [a_uml] @ ''ttning'')))
     \<and> length (trim line) > 10 \<and> \<not> str_includes line ''http''
     \<and> \<not> str_includes line (''Oms'' @ [a_uml] @ ''ttning'')
     \<and> subseq (title b) (trim line)
     \<and> (\<forall>c\<in>set (title b). claimedKept c \<or> c = CHR ''-'')
     \<and> filter (\<lambda>c. isWordChar c \<or> isWhiteSpace c \<or> c = A_ring \<or> c = A_uml \<or> c = O_uml \<or> c = CHR ''-'')
          (title b)
       = filter (\<lambda>c. isWordChar c \<or> isWhiteSpace c \<or> c = A_ring \<or> c = A_uml \<or> c = O_uml \<or> c = CHR ''-'')
          (trim line)"
proof -
  let ?S = "set (listingBlocks (join_LF (page_text rawScrapedData)))"
  have "\<forall>b\<in>set (findBusinessListings rawScrapedData websiteConfig).
      \<exists>block\<in>?S. isBusiness block \<and> title b = extractTitle block \<and> title b \<noteq> []"
    unfolding findBusinessListings_def Let_def by (rule block_loop_titles) simp_all
  with assms obtain block where blk: "block \<in> ?S" "isBusiness block"
    and t: "title b = extractTitle block" and ne: "extractTitle block \<noteq> []"
    by force
  from extractTitle_candidate [OF ne] obtain pre line post where
    sp: "split_LF block = pre @ line # post"
    and pre: "\<forall>l\<in>set pre. \<not> isTitleCandidate l" and cand: "isTitleCandidate line"
    and e: "extractTitle block = filter title_keep (trim line)"
    by blast
  have sub: "subseq (title b) (trim line)"
    by (simp add: t e)
  have kept: "\<forall>c\<in>set (title b). claimedKept c \<or> c = CHR ''-''"
    using title_keep_claimed by (simp add: t e)
  have same: "filter (\<lambda>c. isWordChar c \<or> isWhiteSpace c \<or> c = A_ring \<or> c = A_uml \<or> c = O_uml \<or> c = CHR ''-'')
          (title b)
       = filter (\<lambda>c. isWordChar c \<or> isWhiteSpace c \<or> c = A_ring \<or> c = A_uml \<or> c = O_uml \<or> c = CHR ''-'')
          (trim line)"
    unfolding t e by (simp add: title_keep_def)
  from blk sp pre cand sub kept same show ?thesis
    unfolding isTitleCandidate_def by blast
qed

theorem title_of_listing_witness:
  "hd (findBusinessListings samplePage (snd (hd WEBSITES)))
     \<in> set (findBusinessListings samplePage (snd (hd WEBSITES)))
   \<and> (\<exists>line. length (trim line) > 10
         \<and> subseq (title (hd (findBusinessListings samplePage (snd (hd WEBSITES))))) (trim line))"
proof -
  have "findBusinessListings samplePage (snd (hd WEBSITES)) \<noteq> []"
    using sample_listings by auto
  then have h: "hd (findBusinessListings samplePage (snd (hd WEBSITES)))
       \<in> set (findBusinessListings samplePage (snd (hd WEBSITES)))"
    by simp
  from title_of_listing [OF h] have "\<exists>line. length (trim line) > 10
         \<and> subseq (title (hd (findBusinessListings samplePage (snd (hd WEBSITES))))) (trim line)"
    by blast
  with h show ?thesis by (rule conjI)
qed

theorem title_counterexample:
  "extractTitle (''Bageri-f'' @ [o_uml] @ ''retag i Uppsala till salu'') = ''Bageri-fretag i Uppsala till salu''
   \<and> extractTitle (''  Kort rad  '' @ [LF] @ ''Bageri i Uppsala till salu'') = ''Bageri i Uppsala till salu''
   \<and> \<not> claimedKept (CHR ''-'') \<and> claimedKept o_uml"
  by code_simp

section \<open>Properties of the regular expressions\<close>

lemma rmatch_Seq_I:
  "st1 \<in> set (rmatch a st) \<Longrightarrow> st2 \<in> set (rmatch b st1) \<Longrightarrow> st2 \<in> set (rmatch (Seq a b) st)"
  by auto

lemma rmatch_Alt_I1: "st' \<in> set (rmatch a st) \<Longrightarrow> st' \<in> set (rmatch (Alt a b) st)"
  by simp

lemma rmatch_Alt_I2: "st' \<in> set (rmatch b st) \<Longrightarrow> st' \<in> set (rmatch (Alt a b) st)"
  by simp

lemma rmatch_Star_zero: "st \<in> set (rmatch (Star a) st)"
  by (cases st) (simp only: rmatch.simps(5) set_append list.set Un_iff insert_iff simp_thms)

lemma rmatch_LazyStar_zero: "st \<in> set (rmatch (LazyStar a) st)"
  by (cases st) (simp only: rmatch.simps(6) list.set insert_iff simp_thms)

lemma rmatch_Group_I:
  assumes "(s', c') \<in> set (rmatch a (s, cap))"
  shows "(s', Some (take (length s - length s') s)) \<in> set (rmatch (Group a) (s, cap))"
proof -
  have "(\<lambda>st'. (fst st', Some (take (length s - length (fst st')) s))) (s', c')
      \<in> (\<lambda>st'. (fst st', Some (take (length s - length (fst st')) s))) ` set (rmatch a (s, cap))"
    using assms by (rule imageI)
  then show ?thesis by simp
qed

lemma rmatch_lit_i: "(rest, cap) \<in> set (rmatch (lit_i p) (p @ rest, cap))"
proof (induction p)
  case Nil
  show ?case by simp
next
  case (Cons c p)
  have "(p @ rest, cap) \<in> set (rmatch (Chars (\<lambda>d. char_toLowerCase d = char_toLowerCase c)) ((c # p) @ rest, cap))"
    by simp
  from this Cons show ?case
    unfolding lit_i.simps by (rule rmatch_Seq_I)
qed

lemma regex_found_here: "rmatch r (s, None) \<noteq> [] \<Longrightarrow> regex_found r s"
  by (cases s; cases "rmatch r (s, None)") (simp_all add: regex_found_def)

lemma regex_found_later: "regex_found r s \<Longrightarrow> regex_found r (c # s)"
  by (cases "rmatch r (c # s, None)") (simp_all add: regex_found_def)

lemma regex_found_at:
  "rmatch r (s2, None) \<noteq> [] \<Longrightarrow> regex_found r (s1 @ s2)"
  by (induction s1) (simp_all add: regex_found_here regex_found_later)

section \<open>Properties of filterByProfitRange\<close>

lemma millions_at: "rmatch millionsPattern (''mkr'' @ rest, None) \<noteq> []"
proof -
  let ?s = "''mkr'' @ rest"
  let ?num = "Chars (\<lambda>c. isDigit c \<or> c = CHR '','' \<or> c = CHR ''.'')"
  let ?units = "Alt (Seq (lit_i ''miljone'') (Opt (lit_i ''r''))) (Alt (lit_i ''mkr'') (lit_i ''msek''))"
  have "(?s, None) \<in> set (rmatch (LazyStar ?num) (?s, None))"
    by (rule rmatch_LazyStar_zero)
  then have g: "(?s, Some (take (length ?s - length ?s) ?s)) \<in> set (rmatch (Group (LazyStar ?num)) (?s, None))"
    by (rule rmatch_Group_I)
  have w: "(?s, Some (take (length ?s - length ?s) ?s))
      \<in> set (rmatch (Star (Chars isWhiteSpace)) (?s, Some (take (length ?s - length ?s) ?s)))"
    by (rule rmatch_Star_zero)
  have "(rest, Some (take (length ?s - length ?s) ?s))
      \<in> set (rmatch (lit_i ''mkr'') (?s, Some (take (length ?s - length ?s) ?s)))"
    by (rule rmatch_lit_i)
  then have "(rest, Some (take (length ?s - length ?s) ?s))
      \<in> set (rmatch ?units (?s, Some (take (length ?s - length ?s) ?s)))"
    by (intro rmatch_Alt_I2 rmatch_Alt_I1)
  with w have "(rest, Some (take (length ?s - length ?s) ?s))
      \<in> set (rmatch (Seq (Star (Chars isWhiteSpace)) ?units) (?s, Some (take (length ?s - length ?s) ?s)))"
    by (rule rmatch_Seq_I)
  with g have "(rest, Some (take (length ?s - length ?s) ?s)) \<in> set (rmatch millionsPattern (?s, None))"
    unfolding millionsPattern_def by (rule rmatch_Seq_I)
  then show ?thesis
    by (cases "rmatch millionsPattern (?s, None)") simp_all
qed

lemma toLowerCase_append: "toLowerCase (a @ b) = toLowerCase a @ toLowerCase b"
  by (simp add: toLowerCase_def)

lemma lower_revenues: "toLowerCase ''18 mkr'' = ''18 '' @ ''mkr''" "toLowerCase ''120 mkr'' = ''120 '' @ ''mkr''"
  by code_simp+

lemma hasIndicator_passes:
  "regex_found millionsPattern (searchText b) \<Longrightarrow> inTargetRange b"
  by (simp add: inTargetRange_def indicators_def Let_def)

lemma millions_in_searchText:
  assumes "toLowerCase (revenue b) = pre @ ''mkr''"
  shows "regex_found millionsPattern (searchText b)"
proof -
  let ?rest = "'' '' @ profit b @ '' '' @ description b @ '' '' @ title b"
  have "searchText b = toLowerCase (revenue b @ ?rest)"
    by (simp add: searchText_def)
  also have "\<dots> = toLowerCase (revenue b) @ toLowerCase ?rest"
    by (rule toLowerCase_append)
  also have "\<dots> = pre @ (''mkr'' @ toLowerCase ?rest)"
    by (simp only: assms append_assoc)
  finally have s: "searchText b = pre @ (''mkr'' @ toLowerCase ?rest)" .
  show ?thesis
    unfolding s by (rule regex_found_at [OF millions_at])
qed

text \<open>
  Where no indicator matches, the bounds decide: 18 passes, 120 does not.
\<close>

lemma range_check_samples:
  "inTargetRange (sampleListing ''Bageri'' ''Uppsala'' ''18 kr'')
   \<and> \<not> inTargetRange (sampleListing ''Bageri'' ''Uppsala'' ''120 kr'')"
  by code_simp

text \<open>
  C2 (as the code has it). Every listing whose revenue is \<open>18 mkr\<close> passes the filter, and
  so does every listing whose revenue is \<open>120 mkr\<close>: the revenue is part of the text that
  is searched, and its \<open>mkr\<close> matches the indicator of millions, so that the bounds 15 and
  100 are not consulted.
\<close>

theorem millions_revenue_passes:
  assumes "revenue b = ''18 mkr'' \<or> revenue b = ''120 mkr''"
  shows "inTargetRange b \<and> filterByProfitRange [b] = [b]"
proof -
  have "regex_found millionsPattern (searchText b)"
    using assms
  proof
    assume "revenue b = ''18 mkr''"
    then have "toLowerCase (revenue b) = ''18 '' @ ''mkr''"
      by (simp only: lower_revenues)
    then show ?thesis by (rule millions_in_searchText)
  next
    assume "revenue b = ''120 mkr''"
    then have "toLowerCase (revenue b) = ''120 '' @ ''mkr''"
      by (simp only: lower_revenues)
    then show ?thesis by (rule millions_in_searchText)
  qed
  then have "inTargetRange b" by (rule hasIndicator_passes)
  then show ?thesis by (simp add: filterByProfitRange_def)
qed

theorem millions_revenue_passes_witness:
  "(revenue (sampleListing ''Bageri'' ''Uppsala'' ''18 mkr'') = ''18 mkr''
      \<or> revenue (sampleListing ''Bageri'' ''Uppsala'' ''18 mkr'') = ''120 mkr'')
   \<and> inTargetRange (sampleListing ''Bageri'' ''Uppsala'' ''18 mkr'')
   \<and> filterByProfitRange [sampleListing ''Bageri'' ''Uppsala'' ''18 mkr'']
       = [sampleListing ''Bageri'' ''Uppsala'' ''18 mkr'']"
proof -
  have h: "revenue (sampleListing ''Bageri'' ''Uppsala'' ''18 mkr'') = ''18 mkr''
      \<or> revenue (sampleListing ''Bageri'' ''Uppsala'' ''18 mkr'') = ''120 mkr''"
    by (simp add: sampleListing_def)
  from h millions_revenue_passes [OF h] show ?thesis by (rule conjI)
qed

theorem filter_boundary_counterexample:
  "\<not> regex_found employeesPattern (searchText (sampleListing ''Bageri'' ''Uppsala'' ''120 mkr''))
   \<and> \<not> regex_found profitablePattern (searchText (sampleListing ''Bageri'' ''Uppsala'' ''120 mkr''))
   \<and> filterByProfitRange [sampleListing ''Bageri'' ''Uppsala'' ''120 mkr'']
        = [sampleListing ''Bageri'' ''Uppsala'' ''120 mkr'']"
  by code_simp

end
